theory Spec2Isabelle
  imports Complex_Main "HOL-Library.Monad_Syntax"
begin

section \<open>Sparkline.h: a shallow embedding of the rendering engine\<close>

text \<open>
  The header renders a series of numbers as a text chart. Its one large function,
  \<^verbatim>\<open>Sparkline::Sparkline\<close>, is embedded here block by block, each block of the C++
  function under the name of the variable or of the comment that introduces it.

  Conventions of the embedding.
  \<^item> \<^verbatim>\<open>size_t\<close> values are natural numbers below \<open>2 ^ 64\<close>; a subtraction or a product
    that can leave that range is written with its wrap-around.
  \<^item> \<^verbatim>\<open>int\<close> and \<^verbatim>\<open>unsigned int\<close> are 32 bits wide; a conversion to \<^verbatim>\<open>int\<close> is the
    two's complement reading of the low 32 bits.
  \<^item> The element type \<^verbatim>\<open>T\<close> is instantiated with \<^verbatim>\<open>float\<close>, as \<^verbatim>\<open>main.cpp\<close> does.
    A \<^verbatim>\<open>float\<close> is an IEEE 754 single precision number: a finite number, held as the
    rational it denotes, an infinity, or NaN. Every operation and every conversion from
    an integer rounds its exact result to the nearest \<^verbatim>\<open>float\<close>, ties to even, and
    overflows to an infinity; every intermediate result is a \<^verbatim>\<open>float\<close> (no wider
    registers, no fused multiplication and addition). A division by
    zero gives an infinity or NaN. The two zeros are not told apart: no divisor of the
    function is a negative zero (each is a converted unsigned integer, a quotient of such
    numbers, or a difference).
  \<^item> The samples and the two bounds that the function receives are finite; they are
    given as rationals, and \<open>is_float\<close> says of a rational that it is a \<^verbatim>\<open>float\<close>.
  \<^item> Behaviour that C++ leaves undefined (a read outside the data, the conversion of
    a NaN, an infinity or an out-of-range \<^verbatim>\<open>float\<close> to an integer) is the result \<open>None\<close>
    of the block where it happens and the result \<open>Inl Undefined\<close> of the whole function.
  \<^item> The header is taken as it is shipped: \<^verbatim>\<open>USE_UNICODE_GRAPHICS\<close> is defined and
    \<^verbatim>\<open>WITH_TEXTDECORATOR\<close> is not, so \<^verbatim>\<open>RED\<close>, \<^verbatim>\<open>BLUE\<close> and \<^verbatim>\<open>GREEN\<close> are the identity.
\<close>

subsection \<open>Machine integers\<close>

definition SIZE_RANGE :: nat where
  "SIZE_RANGE = 2 ^ 64"

definition size_sub :: "nat \<Rightarrow> nat \<Rightarrow> nat" where
  \<comment> \<open>\<^verbatim>\<open>a - b\<close> on \<^verbatim>\<open>size_t\<close>\<close>
  "size_sub a b = (a + SIZE_RANGE - b mod SIZE_RANGE) mod SIZE_RANGE"

definition size_mul :: "nat \<Rightarrow> nat \<Rightarrow> nat" where
  \<comment> \<open>\<^verbatim>\<open>a * b\<close> on \<^verbatim>\<open>size_t\<close>\<close>
  "size_mul a b = (a * b) mod SIZE_RANGE"

definition to_int :: "int \<Rightarrow> int" where
  \<comment> \<open>conversion of an integer value to \<^verbatim>\<open>int\<close>\<close>
  "to_int k = (k + 2 ^ 31) mod 2 ^ 32 - 2 ^ 31"

definition to_unsigned :: "int \<Rightarrow> int" where
  \<comment> \<open>conversion of an integer value to \<^verbatim>\<open>unsigned int\<close>\<close>
  "to_unsigned k = k mod 2 ^ 32"

subsection \<open>Floating point numbers\<close>

datatype flt = Finite rat | PInf | MInf | NaN

text \<open>\<^verbatim>\<open>std::numeric_limits<float>::max()\<close> and \<^verbatim>\<open>std::numeric_limits<float>::min()\<close>;
  the latter is the least positive normal number, not the most negative one.\<close>

definition T_max :: rat where
  "T_max = (2 ^ 24 - 1) * 2 ^ 104"

definition T_min :: rat where
  "T_min = 1 / 2 ^ 126"

text \<open>Rounding. The binary exponent of a positive number \<open>x\<close> is the \<open>e\<close> with
  \<open>2 ^ e \<le> x < 2 ^ (e + 1)\<close>, found by halving or doubling. A \<^verbatim>\<open>float\<close> has 24
  significant bits and no exponent below \<open>- 126\<close>, so near \<open>x\<close> the \<^verbatim>\<open>float\<close>s are the
  multiples of \<open>2 ^ (e - 23)\<close>, and of \<open>2 ^ (- 149)\<close> at least.\<close>

function halvings :: "rat \<Rightarrow> nat" where
  \<comment> \<open>how often \<open>x\<close> can be halved before it is below 2\<close>
  "halvings x = (if 2 \<le> x then Suc (halvings (x / 2)) else 0)"
  by pat_completeness auto
termination
proof (relation "measure (\<lambda>x. nat \<lfloor>x\<rfloor>)")
  show "wf (measure (\<lambda>x :: rat. nat \<lfloor>x\<rfloor>))"
    by simp
next
  fix x :: rat
  assume x: "2 \<le> x"
  have "x / 2 \<le> x - 1"
    using x by simp
  then have "\<lfloor>x / 2\<rfloor> \<le> \<lfloor>x - 1\<rfloor>"
    by (rule floor_mono)
  moreover have "2 \<le> \<lfloor>x\<rfloor>"
    using x by (simp add: le_floor_iff)
  ultimately show "(x / 2, x) \<in> measure (\<lambda>x. nat \<lfloor>x\<rfloor>)"
    by simp
qed

function doublings :: "rat \<Rightarrow> nat" where
  \<comment> \<open>how often a positive \<open>x\<close> must be doubled to reach 1\<close>
  "doublings x = (if 0 < x \<and> x < 1 then Suc (doublings (2 * x)) else 0)"
  by pat_completeness auto
termination
proof (relation "measure (\<lambda>x. nat \<lfloor>1 / x\<rfloor>)")
  show "wf (measure (\<lambda>x :: rat. nat \<lfloor>1 / x\<rfloor>))"
    by simp
next
  fix x :: rat
  assume x: "0 < x \<and> x < 1"
  define y where "y = 1 / x"
  have one: "1 \<le> y"
    using x by (simp add: y_def)
  have fl: "1 \<le> \<lfloor>y\<rfloor>"
    using one by (simp add: le_floor_iff)
  have "y < of_int \<lfloor>y\<rfloor> + 1"
    by linarith
  moreover have "(1 :: rat) \<le> of_int \<lfloor>y\<rfloor>"
    using fl by (metis of_int_1 of_int_le_iff)
  ultimately have "y / 2 < of_int \<lfloor>y\<rfloor>"
    by linarith
  then have "\<lfloor>y / 2\<rfloor> < \<lfloor>y\<rfloor>"
    by (simp add: floor_less_iff)
  moreover have "1 / (2 * x) = y / 2"
    by (simp add: y_def)
  ultimately have "\<lfloor>1 / (2 * x)\<rfloor> < \<lfloor>1 / x\<rfloor>"
    by (simp only: y_def)
  then have "nat \<lfloor>1 / (2 * x)\<rfloor> < nat \<lfloor>1 / x\<rfloor>"
    using fl by linarith
  then show "(2 * x, x) \<in> measure (\<lambda>x. nat \<lfloor>1 / x\<rfloor>)"
    by (simp only: in_measure)
qed

declare halvings.simps [simp del]
declare doublings.simps [simp del]

definition expo :: "rat \<Rightarrow> int" where
  \<comment> \<open>the binary exponent of a positive number\<close>
  "expo x = (if 1 \<le> x then int (halvings x) else - int (doublings x))"

definition round_int :: "rat \<Rightarrow> int" where
  \<comment> \<open>the nearest integer, the even one of two that are equally near\<close>
  "round_int x =
     (let f = \<lfloor>x\<rfloor>; r = x - of_int f
      in if r < 1 / 2 then f else if 1 / 2 < r then f + 1 else if even f then f else f + 1)"

definition round_to :: "int \<Rightarrow> rat \<Rightarrow> rat" where
  \<comment> \<open>the nearest multiple of \<open>2 ^ e\<close>\<close>
  "round_to e x = of_int (round_int (x / 2 powi e)) * 2 powi e"

definition rnd :: "rat \<Rightarrow> rat" where
  \<comment> \<open>rounding to 24 significant bits, with the exponent unbounded above\<close>
  "rnd x = round_to (max (expo \<bar>x\<bar> - 23) (- 149)) x"

definition round32 :: "rat \<Rightarrow> flt" where
  \<comment> \<open>the \<^verbatim>\<open>float\<close> that an exact result \<open>x\<close> is rounded to\<close>
  "round32 x =
     (let y = rnd x
      in if T_max < y then PInf else if y < - T_max then MInf else Finite y)"

definition is_float :: "rat \<Rightarrow> bool" where
  "is_float x \<longleftrightarrow> round32 x = Finite x"

fun fneg :: "flt \<Rightarrow> flt" where
  "fneg (Finite x) = Finite (- x)"
| "fneg PInf = MInf"
| "fneg MInf = PInf"
| "fneg NaN = NaN"

fun fadd :: "flt \<Rightarrow> flt \<Rightarrow> flt" where
  "fadd (Finite x) (Finite y) = round32 (x + y)"
| "fadd NaN _ = NaN"
| "fadd _ NaN = NaN"
| "fadd PInf MInf = NaN"
| "fadd MInf PInf = NaN"
| "fadd PInf _ = PInf"
| "fadd _ PInf = PInf"
| "fadd MInf _ = MInf"
| "fadd _ MInf = MInf"

definition fsub :: "flt \<Rightarrow> flt \<Rightarrow> flt" where
  "fsub a b = fadd a (fneg b)"

fun fmul :: "flt \<Rightarrow> flt \<Rightarrow> flt" where
  "fmul (Finite x) (Finite y) = round32 (x * y)"
| "fmul NaN _ = NaN"
| "fmul _ NaN = NaN"
| "fmul (Finite x) b = (if x = 0 then NaN else if 0 < x then b else fneg b)"
| "fmul a (Finite y) = (if y = 0 then NaN else if 0 < y then a else fneg a)"
| "fmul PInf b = b"
| "fmul MInf b = fneg b"

fun fdiv :: "flt \<Rightarrow> flt \<Rightarrow> flt" where
  \<comment> \<open>the zero of a divisor is the positive one\<close>
  "fdiv (Finite x) (Finite y) =
     (if y = 0 then (if x = 0 then NaN else if 0 < x then PInf else MInf)
      else round32 (x / y))"
| "fdiv NaN _ = NaN"
| "fdiv _ NaN = NaN"
| "fdiv (Finite x) _ = Finite 0"
| "fdiv a (Finite y) = (if 0 \<le> y then a else fneg a)"
| "fdiv _ _ = NaN"

fun ffloor :: "flt \<Rightarrow> flt" where
  \<comment> \<open>\<^verbatim>\<open>std::floor\<close>\<close>
  "ffloor (Finite x) = Finite (of_int \<lfloor>x\<rfloor>)"
| "ffloor b = b"

fun fless :: "flt \<Rightarrow> flt \<Rightarrow> bool" where
  \<comment> \<open>\<^verbatim>\<open>a < b\<close>: false as soon as one side is not a number\<close>
  "fless (Finite x) (Finite y) = (x < y)"
| "fless (Finite x) PInf = True"
| "fless MInf (Finite y) = True"
| "fless MInf PInf = True"
| "fless _ _ = False"

definition std_min :: "flt \<Rightarrow> flt \<Rightarrow> flt" where
  "std_min a b = (if fless b a then b else a)"

definition std_max :: "flt \<Rightarrow> flt \<Rightarrow> flt" where
  "std_max a b = (if fless a b then b else a)"

definition of_size :: "nat \<Rightarrow> flt" where
  \<comment> \<open>conversion of a \<^verbatim>\<open>size_t\<close> to \<^verbatim>\<open>float\<close>\<close>
  "of_size n = round32 (of_nat n)"

definition of_unsigned :: "int \<Rightarrow> flt" where
  \<comment> \<open>conversion of an \<^verbatim>\<open>unsigned int\<close> to \<^verbatim>\<open>float\<close>\<close>
  "of_unsigned k = round32 (of_int k)"

fun to_size :: "flt \<Rightarrow> nat option" where
  \<comment> \<open>\<^verbatim>\<open>(size_t)x\<close>: truncation; undefined unless the truncated value is a \<^verbatim>\<open>size_t\<close>\<close>
  "to_size (Finite x) =
     (if - 1 < x \<and> x < of_nat SIZE_RANGE then Some (nat \<lfloor>x\<rfloor>) else None)"
| "to_size _ = None"

fun float_to_int :: "flt \<Rightarrow> int option" where
  \<comment> \<open>conversion of a \<^verbatim>\<open>float\<close> to \<^verbatim>\<open>int\<close>: undefined unless the truncated value
      is an \<^verbatim>\<open>int\<close>\<close>
  "float_to_int (Finite x) =
     (if - (2 ^ 31) - 1 < x \<and> x < 2 ^ 31
      then Some (if x < 0 then \<lceil>x\<rceil> else \<lfloor>x\<rfloor>) else None)"
| "float_to_int _ = None"

subsection \<open>Constants of the header\<close>

definition PREC :: nat where
  "PREC = 12"

definition ENCLOSURE_WIDTH :: nat where
  "ENCLOSURE_WIDTH = PREC + 8"

definition TICKS :: nat where
  "TICKS = 8"

text \<open>The glyphs are the UTF-8 bytes of the code points the header names.\<close>

definition ticks :: "string list" where
  "ticks = [[CHR 0xE2, CHR 0x96, CHR 0x81], [CHR 0xE2, CHR 0x96, CHR 0x82],
            [CHR 0xE2, CHR 0x96, CHR 0x83], [CHR 0xE2, CHR 0x96, CHR 0x84],
            [CHR 0xE2, CHR 0x96, CHR 0x85], [CHR 0xE2, CHR 0x96, CHR 0x86],
            [CHR 0xE2, CHR 0x96, CHR 0x87], [CHR 0xE2, CHR 0x96, CHR 0x88]]"

definition BOX_NW_CORNER :: string where
  "BOX_NW_CORNER = [CHR 0xE2, CHR 0x95, CHR 0xAD]"

definition BOX_NE_CORNER :: string where
  "BOX_NE_CORNER = [CHR 0xE2, CHR 0x95, CHR 0xAE]"

definition BOX_SW_CORNER :: string where
  "BOX_SW_CORNER = [CHR 0xE2, CHR 0x95, CHR 0xB0]"

definition BOX_SE_CORNER :: string where
  "BOX_SE_CORNER = [CHR 0xE2, CHR 0x95, CHR 0xAF]"

definition BOX_H_BORDER :: string where
  "BOX_H_BORDER = [CHR 0xE2, CHR 0x94, CHR 0x80]"

definition BOX_H_BORDER_TICK :: string where
  "BOX_H_BORDER_TICK = [CHR 0xE2, CHR 0x94, CHR 0xAC]"

definition BOX_V_BORDER :: string where
  "BOX_V_BORDER = [CHR 0xE2, CHR 0x94, CHR 0x82]"

definition BOX_V_BORDER_TICK :: string where
  "BOX_V_BORDER_TICK = [CHR 0xE2, CHR 0x94, CHR 0x9C]"

definition newline :: string where
  "newline = [CHR 0x0A]"

subsection \<open>Reading the data\<close>

definition read :: "rat list \<Rightarrow> nat \<Rightarrow> rat option" where
  \<comment> \<open>\<^verbatim>\<open>data[i]\<close>\<close>
  "read data i = (if i < length data then Some (data ! i) else None)"

subsection \<open>Interpolate data points\<close>

definition bin_slices_indices :: "flt \<Rightarrow> nat \<Rightarrow> flt" where
  "bin_slices_indices w_scale i = fdiv (of_size i) w_scale"

fun add_samples :: "rat list \<Rightarrow> nat list \<Rightarrow> flt \<Rightarrow> flt option" where
  \<comment> \<open>the inner loop \<^verbatim>\<open>bins[i] += data[j]\<close> over the indices \<open>js\<close>\<close>
  "add_samples data [] b = Some b"
| "add_samples data (j # js) b =
     do { d \<leftarrow> read data j; add_samples data js (fadd b (Finite d)) }"

definition bin :: "rat list \<Rightarrow> nat \<Rightarrow> flt \<Rightarrow> nat \<Rightarrow> flt option" where
  \<comment> \<open>one round of the loop that fills \<^verbatim>\<open>bins[i]\<close>\<close>
  "bin data number_of_data_points w_scale i =
     do {
       let mass_per_bin = fdiv (Finite 1) w_scale;
       let lower = bin_slices_indices w_scale i;
       let upper = bin_slices_indices w_scale (i + 1);
       l \<leftarrow> to_size lower;
       d \<leftarrow> read data l;
       let b = fadd (Finite 0) (fmul (fsub (Finite 1) (fsub lower (of_size l))) (Finite d));
       u \<leftarrow> to_size upper;
       b \<leftarrow> add_samples data [l + 1 ..< u] b;
       b \<leftarrow> (if u < number_of_data_points
            then do { d \<leftarrow> read data u;
                      Some (fadd b (fmul (fsub upper (of_size u)) (Finite d))) }
            else Some b);
       Some (fdiv b mass_per_bin)
     }"

definition bins :: "rat list \<Rightarrow> nat \<Rightarrow> nat \<Rightarrow> flt option list" where
  "bins data number_of_data_points this_many_characters_wide =
     (let w_scale = fdiv (of_size this_many_characters_wide) (of_size number_of_data_points)
      in map (bin data number_of_data_points w_scale) [0 ..< this_many_characters_wide])"

subsection \<open>Use provided min/max values or adapt to data range\<close>

fun adapt_range :: "rat list \<Rightarrow> nat list \<Rightarrow> rat \<times> rat \<Rightarrow> (rat \<times> rat) option" where
  \<comment> \<open>the loop over the data, for the indices \<open>is\<close>\<close>
  "adapt_range data [] (minv, maxv) = Some (minv, maxv)"
| "adapt_range data (i # is) (minv, maxv) =
     do { d \<leftarrow> read data i; adapt_range data is (min minv d, max maxv d) }"

definition resolve_range :: "rat list \<Rightarrow> nat \<Rightarrow> rat \<Rightarrow> rat \<Rightarrow> (rat \<times> rat) option" where
  "resolve_range data number_of_data_points minv0 maxv0 =
     (let minv = min minv0 T_max;
          maxv = max maxv0 T_min
      in if minv = T_max \<and> maxv = T_min
         then adapt_range data [0 ..< number_of_data_points] (minv, maxv)
         else Some (minv, maxv))"

subsection \<open>Limit the width to the terminal\<close>

text \<open>\<open>terminal_width\<close> is what \<^verbatim>\<open>SparklineHelpers::TerminalWidth()\<close> returns, an
  \<^verbatim>\<open>unsigned short\<close>; the function below is the value of \<^verbatim>\<open>this_many_characters_wide\<close>
  after the block.\<close>

definition effective_width :: "nat \<Rightarrow> bool \<Rightarrow> nat \<Rightarrow> nat \<Rightarrow> nat" where
  "effective_width terminal_width enclose_in_box this_many_characters_wide number_of_data_points =
     (let max_width = terminal_width;
          max_width = (if enclose_in_box then size_sub max_width ENCLOSURE_WIDTH else max_width);
          wide = (if this_many_characters_wide = 0 then number_of_data_points
                  else this_many_characters_wide);
          wide = (if max_width < wide then max_width else wide)
      in wide)"

subsection \<open>The output stream\<close>

text \<open>
  The result is the sequence of insertions into the \<^verbatim>\<open>std::ostringstream\<close>: a string or
  a character (\<open>Str\<close>), a \<^verbatim>\<open>float\<close> in a field of the given width, left-aligned
  (\<open>Num\<close>; width 0 when no \<^verbatim>\<open>std::setw\<close> precedes it), or a \<^verbatim>\<open>size_t\<close> (\<open>Idx\<close>).
  How the stream prints a number is not modelled.
\<close>

datatype item = Str string | Num nat flt | Idx nat

definition setw_blank :: "int \<Rightarrow> item" where
  \<comment> \<open>\<^verbatim>\<open>oss << std::setw(w) << ' '\<close>: the blank, after \<open>w - 1\<close> fill blanks if \<open>w > 1\<close>\<close>
  "setw_blank w = Str (replicate (nat (w - 1)) CHR '' '' @ '' '')"

subsection \<open>Begin box (upper border)\<close>

definition upper_border :: "nat \<Rightarrow> string \<Rightarrow> item list" where
  "upper_border this_many_characters_wide title =
     (if title = [] then
        [Str BOX_NW_CORNER] @ replicate this_many_characters_wide (Str BOX_H_BORDER)
          @ [Str BOX_NE_CORNER, Str newline]
      else if length title > this_many_characters_wide then
        [Str title, Str newline]
      else
        (let filler = this_many_characters_wide - length title;
             i = filler div 2;
             i' = i + length title
         in [Str BOX_NW_CORNER] @ replicate i (Str BOX_H_BORDER) @ [Str title]
              @ replicate (this_many_characters_wide - i') (Str BOX_H_BORDER)
              @ [Str BOX_NE_CORNER, Str newline]))"

subsection \<open>The plot lines\<close>

definition levels :: "nat \<Rightarrow> nat" where
  "levels this_many_lines_high = size_sub (size_mul this_many_lines_high TICKS) 1"

definition cell_index :: "rat \<Rightarrow> rat \<Rightarrow> nat \<Rightarrow> flt \<Rightarrow> int option" where
  \<comment> \<open>\<^verbatim>\<open>index\<close> for one column\<close>
  "cell_index minv maxv lv b =
     (let data' = std_min (Finite maxv) (std_max (Finite minv) b);
          fraction = fdiv (fsub data' (Finite minv)) (fsub (Finite maxv) (Finite minv))
      in float_to_int (ffloor (fmul fraction (of_size lv))))"

definition tick :: "int \<Rightarrow> string option" where
  \<comment> \<open>\<^verbatim>\<open>ticks[k]\<close>\<close>
  "tick k = (if 0 \<le> k \<and> k < int TICKS then Some (ticks ! nat k) else None)"

definition cell :: "rat \<Rightarrow> rat \<Rightarrow> nat \<Rightarrow> int \<Rightarrow> int \<Rightarrow> flt \<Rightarrow> item option" where
  "cell minv maxv lv this_line_min_index this_line_max_index b =
     do {
       index \<leftarrow> cell_index minv maxv lv b;
       if index < this_line_min_index then Some (Str '' '')
       else if index > this_line_max_index then map_option Str (tick (int TICKS - 1))
       else map_option Str (tick (index - this_line_min_index))
     }"

definition middle_level :: "nat \<Rightarrow> int \<Rightarrow> rat \<Rightarrow> rat \<Rightarrow> flt" where
  \<comment> \<open>\<^verbatim>\<open>(line*TICKS+4) * (maxv-minv)/(this_many_lines_high*TICKS) + minv\<close>\<close>
  "middle_level this_many_lines_high line minv maxv =
     fadd (fdiv (fmul (of_unsigned (to_unsigned (line * int TICKS + 4)))
                      (fsub (Finite maxv) (Finite minv)))
                (of_size (size_mul this_many_lines_high TICKS)))
          (Finite minv)"

definition right_border :: "nat \<Rightarrow> int \<Rightarrow> rat \<Rightarrow> rat \<Rightarrow> item list" where
  \<comment> \<open>Right box border and min/max value marks\<close>
  "right_border this_many_lines_high line minv maxv =
     (if this_many_lines_high = 1 then
        [Str BOX_V_BORDER_TICK, Str '' min: '', Num PREC (Finite minv),
         Str '', max: '', Num PREC (Finite maxv)]
      else if line = to_int (int this_many_lines_high) - 1 then
        [Str BOX_V_BORDER_TICK, Str '' max: '', Num 0 (Finite maxv)]
      else if line = 0 then
        [Str BOX_V_BORDER_TICK, Str '' min: '', Num 0 (Finite minv)]
      else
        [Str BOX_V_BORDER_TICK, Str ''      '',
         Num 0 (middle_level this_many_lines_high line minv maxv)])"

definition plot_line ::
  "nat \<Rightarrow> bool \<Rightarrow> rat \<Rightarrow> rat \<Rightarrow> flt list \<Rightarrow> int \<Rightarrow> item list option" where
  \<comment> \<open>one round of the loop over \<^verbatim>\<open>line\<close>\<close>
  "plot_line this_many_lines_high enclose_in_box minv maxv bs line =
     do {
       let this_line_min_index = to_int (to_unsigned (line * int TICKS));
       let this_line_max_index = to_int (to_unsigned (this_line_min_index + (int TICKS - 1)));
       cells \<leftarrow> those (map (cell minv maxv (levels this_many_lines_high)
                               this_line_min_index this_line_max_index) bs);
       Some ((if enclose_in_box then [Str BOX_V_BORDER] else [])
             @ cells
             @ (if enclose_in_box then right_border this_many_lines_high line minv maxv else [])
             @ (if line > 0 then [Str newline] else []))
     }"

definition plot_lines ::
  "nat \<Rightarrow> bool \<Rightarrow> rat \<Rightarrow> rat \<Rightarrow> flt list \<Rightarrow> item list option" where
  \<comment> \<open>\<^verbatim>\<open>for ( int line = (int)this_many_lines_high-1; line >= 0; --line )\<close>;
      the subtraction overflows when the conversion gives the least \<^verbatim>\<open>int\<close>\<close>
  "plot_lines this_many_lines_high enclose_in_box minv maxv bs =
     (let top = to_int (int this_many_lines_high) in
      if top = - (2 ^ 31) then None
      else map_option concat
             (those (map (plot_line this_many_lines_high enclose_in_box minv maxv bs)
                         (rev (map int [0 ..< nat top])))))"

subsection \<open>Finish box (lower border and sample index marks)\<close>

definition CharLength :: "nat \<Rightarrow> nat" where
  \<comment> \<open>\<^verbatim>\<open>std::ceil(log10(n+1))\<close>\<close>
  "CharLength n = nat \<lceil>log 10 (real (n + 1))\<rceil>"

definition x_ticks_separation :: "nat \<Rightarrow> nat" where
  "x_ticks_separation number_of_data_points = 2 * 2 + CharLength number_of_data_points"

definition x_ticks_number :: "nat \<Rightarrow> nat \<Rightarrow> nat" where
  "x_ticks_number this_many_characters_wide number_of_data_points =
     this_many_characters_wide div x_ticks_separation number_of_data_points + 1"

definition x_ticks :: "nat \<Rightarrow> nat \<Rightarrow> nat list" where
  "x_ticks this_many_characters_wide number_of_data_points =
     map (\<lambda>i. size_mul i (x_ticks_separation number_of_data_points))
         [0 ..< x_ticks_number this_many_characters_wide number_of_data_points - 1]
     @ [size_sub this_many_characters_wide 1]"

definition x_ticks_values :: "nat \<Rightarrow> nat \<Rightarrow> nat list" where
  "x_ticks_values this_many_characters_wide number_of_data_points =
     map (\<lambda>i. size_mul i number_of_data_points
               div x_ticks_number this_many_characters_wide number_of_data_points)
         [0 ..< x_ticks_number this_many_characters_wide number_of_data_points - 1]
     @ [number_of_data_points]"

fun lower_border :: "nat list \<Rightarrow> nat \<Rightarrow> nat list \<Rightarrow> item list option" where
  \<comment> \<open>the loop over the columns \<open>is\<close>, with \<^verbatim>\<open>next_tick\<close>; a read of \<^verbatim>\<open>x_ticks\<close> past
      its end is undefined\<close>
  "lower_border xt next_tick [] = Some []"
| "lower_border xt next_tick (i # is) =
     (if next_tick < length xt then
        (if i = xt ! next_tick
         then map_option ((#) (Str BOX_H_BORDER_TICK)) (lower_border xt (next_tick + 1) is)
         else map_option ((#) (Str BOX_H_BORDER)) (lower_border xt next_tick is))
      else None)"

fun tick_labels :: "nat \<Rightarrow> nat list \<Rightarrow> nat list \<Rightarrow> item list \<times> nat \<Rightarrow> item list \<times> nat" where
  \<comment> \<open>the loop over the inner ticks \<open>is\<close>; the state is what the loop has written and
      \<^verbatim>\<open>current_col\<close>\<close>
  "tick_labels sep xv [] (out, current_col) = (out, current_col)"
| "tick_labels sep xv (i # is) (out, current_col) =
     (let tmp = CharLength (xv ! i);
          current_col = current_col + tmp;
          rw = tmp - tmp div 2;
          tmp = CharLength (xv ! (i - 1));
          lw = tmp div 2;
          tofill = size_sub (size_sub sep rw) lw
      in tick_labels sep xv is
           (out @ [setw_blank (to_int (int tofill)), Idx (xv ! i)], current_col + tofill))"

definition finish_box :: "nat \<Rightarrow> nat \<Rightarrow> item list option" where
  "finish_box this_many_characters_wide number_of_data_points =
     do {
       let sep = x_ticks_separation number_of_data_points;
       let num = x_ticks_number this_many_characters_wide number_of_data_points;
       let xt = x_ticks this_many_characters_wide number_of_data_points;
       let xv = x_ticks_values this_many_characters_wide number_of_data_points;
       border \<leftarrow> lower_border xt 0 [0 ..< this_many_characters_wide];
       let labels = tick_labels sep xv [1 ..< num - 1] ([], 1);
       let current_col = snd labels;
       let w = (size_sub (size_sub (xt ! (num - 1)) current_col)
                         (CharLength number_of_data_points) + 2) mod SIZE_RANGE;
       Some ([Str newline, Str BOX_SW_CORNER] @ border @ [Str BOX_SE_CORNER]
             @ [Str (newline @ '' ''), Idx (xv ! 0)] @ fst labels
             @ [setw_blank (to_int (int w)), Idx (xv ! (num - 1)), Str newline])
     }"

subsection \<open>The function\<close>

datatype error = RuntimeError string | Undefined

definition assemble ::
  "rat list \<Rightarrow> nat \<Rightarrow> nat \<Rightarrow> nat \<Rightarrow> bool \<Rightarrow> string \<Rightarrow> rat \<Rightarrow> rat \<Rightarrow> item list option" where
  \<comment> \<open>everything after the check of the width\<close>
  "assemble data number_of_data_points this_many_lines_high this_many_characters_wide
            enclose_in_box title minv maxv =
     do {
       bs \<leftarrow> those (bins data number_of_data_points this_many_characters_wide);
       let upper = (if enclose_in_box then upper_border this_many_characters_wide title else []);
       body \<leftarrow> plot_lines this_many_lines_high enclose_in_box minv maxv bs;
       lower \<leftarrow> (if enclose_in_box
                 then finish_box this_many_characters_wide number_of_data_points
                 else Some []);
       Some (upper @ body @ lower)
     }"

definition Sparkline ::
  "nat \<Rightarrow> rat list \<Rightarrow> nat \<Rightarrow> nat \<Rightarrow> nat \<Rightarrow> bool \<Rightarrow> bool \<Rightarrow> string \<Rightarrow> rat \<Rightarrow> rat
     \<Rightarrow> error + item list" where
  "Sparkline terminal_width data number_of_data_points this_many_lines_high
             this_many_characters_wide enclose_in_box print_colored title minv0 maxv0 =
     (case resolve_range data number_of_data_points minv0 maxv0 of
        None \<Rightarrow> Inl Undefined
      | Some resolved \<Rightarrow>
          (let wide = effective_width terminal_width enclose_in_box
                        this_many_characters_wide number_of_data_points
           in if wide > number_of_data_points
              then Inl (RuntimeError ''Woops! Not implemented..'')
              else (case assemble data number_of_data_points this_many_lines_high wide
                           enclose_in_box title (fst resolved) (snd resolved) of
                      None \<Rightarrow> Inl Undefined
                    | Some out \<Rightarrow> Inr out)))"

subsection \<open>Configuration and the overloads\<close>

record Configuration =
  this_many_lines_high :: nat
  this_many_characters_wide :: nat
  enclose_in_box :: bool
  print_colored :: bool
  title :: string
  minv :: rat
  maxv :: rat

definition Sparkline_config ::
  "nat \<Rightarrow> rat list \<Rightarrow> nat \<Rightarrow> Configuration \<Rightarrow> error + item list" where
  \<comment> \<open>\<^verbatim>\<open>Sparkline(data, number_of_data_points, config)\<close>\<close>
  "Sparkline_config terminal_width data number_of_data_points config =
     Sparkline terminal_width data number_of_data_points
       (this_many_lines_high config) (this_many_characters_wide config)
       (enclose_in_box config) (print_colored config) (title config)
       (minv config) (maxv config)"

definition Sparkline_vector ::
  "nat \<Rightarrow> rat list \<Rightarrow> nat \<Rightarrow> nat \<Rightarrow> bool \<Rightarrow> bool \<Rightarrow> string \<Rightarrow> rat \<Rightarrow> rat
     \<Rightarrow> error + item list" where
  \<comment> \<open>\<^verbatim>\<open>Sparkline(const std::vector<T>& data, ...)\<close>: \<^verbatim>\<open>ptr = &data[0]\<close> and
      \<^verbatim>\<open>data.size()\<close>\<close>
  "Sparkline_vector terminal_width data lines_high characters_wide box colored caption
                    minv0 maxv0 =
     Sparkline terminal_width data (length data) lines_high characters_wide box colored
       caption minv0 maxv0"

definition Sparkline_vector_config ::
  "nat \<Rightarrow> rat list \<Rightarrow> Configuration \<Rightarrow> error + item list" where
  \<comment> \<open>\<^verbatim>\<open>Sparkline(const std::vector<T>& data, config)\<close>\<close>
  "Sparkline_vector_config terminal_width data config =
     Sparkline_vector terminal_width data
       (this_many_lines_high config) (this_many_characters_wide config)
       (enclose_in_box config) (print_colored config) (title config)
       (minv config) (maxv config)"

subsection \<open>The example of the README\<close>

text \<open>\<^verbatim>\<open>ShowExampleGaussian\<close> plots 21 samples of a bell curve on three lines, between 0
  and 0.15, in a box with the title \<^verbatim>\<open>Gaussian\<close>. The \<^verbatim>\<open>float\<close> nearest to 0.15 is
  \<open>5033165 / 33554432\<close>.\<close>

definition gaussian :: "rat list" where
  \<comment> \<open>\<^verbatim>\<open>data_vec\<close> of \<^verbatim>\<open>ShowExampleGaussian\<close>, each literal rounded to \<^verbatim>\<open>float\<close>\<close>
  "gaussian =
     [4416025 / 8589934592, 12689763 / 8589934592, 16315129 / 4294967296,
      2346295 / 268435456, 2415515 / 134217728, 1112633 / 33554432,
      14675373 / 268435456, 10825587 / 134217728, 7145931 / 67108864,
      131905 / 1048576, 2231047 / 16777216,
      131905 / 1048576, 7145931 / 67108864, 10825587 / 134217728, 14675373 / 268435456,
      1112633 / 33554432, 2415515 / 134217728, 2346295 / 268435456,
      16315129 / 4294967296, 12689763 / 8589934592, 4416025 / 8589934592]"

section \<open>Evaluation\<close>

text \<open>\<^verbatim>\<open>CharLength\<close> counts decimal digits: it is 0 at 0 and one more than at a tenth
  of the number otherwise. This is how it is computed below.\<close>

lemma CharLength_pow:
  assumes "10 ^ k \<le> n" and "n < 10 ^ (k + 1)"
  shows "CharLength n = k + 1"
proof -
  have "(10::nat) ^ k < n + 1" using assms by simp
  moreover have "n + 1 \<le> (10::nat) ^ (k + 1)" using assms by simp
  ultimately have "\<lceil>log (real (10::nat)) (real (n + 1))\<rceil> = int k + 1"
    by (rule ceiling_log_nat_eq_if) simp
  then show ?thesis by (simp add: CharLength_def)
qed

lemma CharLength_rec:
  "CharLength n = (if n = 0 then 0 else Suc (CharLength (n div 10)))"
proof (cases "n = 0")
  case True
  then show ?thesis by (simp add: CharLength_def)
next
  case False
  then have "1 \<le> n" by simp
  then obtain k where k: "10 ^ k \<le> n" "n < 10 ^ (k + 1)"
    using ex_power_ivl1 [of 10 n] by auto
  have n: "CharLength n = k + 1" using k by (rule CharLength_pow)
  show ?thesis
  proof (cases k)
    case 0
    with k have "n div 10 = 0" by simp
    then have "CharLength (n div 10) = 0" by (simp add: CharLength_def)
    with n 0 False show ?thesis by simp
  next
    case (Suc j)
    have "10 ^ j \<le> n div 10" using k(1) Suc by (simp add: less_eq_div_iff_mult_less_eq)
    moreover have "n div 10 < 10 ^ (j + 1)" using k(2) Suc by (simp add: div_less_iff_less_mult)
    ultimately have "CharLength (n div 10) = j + 1" by (rule CharLength_pow)
    with n Suc False show ?thesis by simp
  qed
qed

lemma CharLength_0: "CharLength 0 = 0"
  by (simp add: CharLength_def)

lemma CharLength_numeral: "CharLength (numeral k) = Suc (CharLength (numeral k div 10))"
  using CharLength_rec [of "numeral k"] by simp

text \<open>Rules and congruences that let the simplifier run the definitions on numerals,
  arguments first.\<close>

lemma upt_0_numeral: "[0 ..< numeral n] = 0 # [1 ..< numeral n]"
  by (simp add: upt_rec [of 0])

lemma upt_1_numeral: "[Suc 0 ..< numeral n] = (if Suc 0 < (numeral n :: nat) then Suc 0 # [2 ..< numeral n] else [])"
  by (subst upt_rec) (simp add: numeral_2_eq_2)

lemma replicate_numeral: "replicate (numeral k) x = x # replicate (pred_numeral k) x"
  by (simp add: numeral_eq_Suc)

lemma bind_weak_cong: "m = m' \<Longrightarrow> Option.bind m f = Option.bind m' f"
  by simp

lemmas eval_congs = bind_weak_cong prod.case_cong_weak option.case_cong_weak
  sum.case_cong_weak let_weak_cong

lemma floor_rat_numeral: "\<lfloor>(numeral a :: rat) / numeral b\<rfloor> = numeral a div numeral b"
  using floor_divide_of_int_eq [of "numeral a" "numeral b", where ?'a = rat] by simp

lemma floor_rat_neg_numeral:
  "\<lfloor>- ((numeral a :: rat) / numeral b)\<rfloor> = - numeral a div numeral b"
  using floor_divide_of_int_eq [of "- numeral a" "numeral b", where ?'a = rat] by simp

lemma floor_rat_one_numeral: "\<lfloor>(1 :: rat) / numeral b\<rfloor> = 1 div numeral b"
  using floor_divide_of_int_eq [of 1 "numeral b", where ?'a = rat] by simp

lemma floor_rat_neg_one_numeral: "\<lfloor>- ((1 :: rat) / numeral b)\<rfloor> = - 1 div numeral b"
  using floor_divide_of_int_eq [of "- 1" "numeral b", where ?'a = rat] by simp

lemma halvings_step: "2 \<le> x \<Longrightarrow> halvings x = Suc (halvings (x / 2))"
  by (subst halvings.simps) simp

lemma halvings_stop: "x < 2 \<Longrightarrow> halvings x = 0"
  by (subst halvings.simps) simp

lemma doublings_step: "0 < x \<Longrightarrow> x < 1 \<Longrightarrow> doublings x = Suc (doublings (2 * x))"
  by (subst doublings.simps) simp

lemma doublings_stop: "1 \<le> x \<Longrightarrow> doublings x = 0"
  by (subst doublings.simps) simp

lemmas float_defs = halvings_step halvings_stop doublings_step doublings_stop expo_def
  round_int_def round_to_def rnd_def round32_def is_float_def fsub_def of_unsigned_def
  floor_rat_neg_numeral floor_rat_one_numeral floor_rat_neg_one_numeral

lemmas machine_defs = SIZE_RANGE_def size_sub_def size_mul_def to_int_def to_unsigned_def
  of_size_def std_min_def std_max_def T_max_def T_min_def PREC_def ENCLOSURE_WIDTH_def
  TICKS_def float_defs

lemmas glyph_defs = ticks_def BOX_NW_CORNER_def BOX_NE_CORNER_def BOX_SW_CORNER_def
  BOX_SE_CORNER_def BOX_H_BORDER_def BOX_H_BORDER_TICK_def BOX_V_BORDER_def
  BOX_V_BORDER_TICK_def newline_def

lemmas block_defs = read_def bin_slices_indices_def bin_def bins_def resolve_range_def
  effective_width_def setw_blank_def upper_border_def levels_def cell_index_def tick_def
  cell_def middle_level_def right_border_def plot_line_def plot_lines_def
  x_ticks_separation_def x_ticks_number_def x_ticks_def x_ticks_values_def finish_box_def
  assemble_def Sparkline_def CharLength_0 CharLength_numeral upt_0_numeral upt_1_numeral replicate_numeral floor_rat_numeral Let_def

section \<open>Rounding\<close>

text \<open>The exponent found by halving or doubling is the binary exponent; rounding is
  exact on numbers of 24 bits, and monotone; two \<^verbatim>\<open>float\<close>s differ by \<open>2 ^ (- 149)\<close> at
  least.\<close>

lemma halvings_bounds:
  assumes "1 \<le> x"
  shows "2 ^ halvings x \<le> x \<and> x < 2 * 2 ^ halvings x"
  using assms
proof (induction x rule: halvings.induct)
  case (1 x)
  show ?case
  proof (cases "2 \<le> x")
    case True
    then have "2 ^ halvings (x / 2) \<le> x / 2 \<and> x / 2 < 2 * 2 ^ halvings (x / 2)"
      using 1 by simp
    moreover have "halvings x = Suc (halvings (x / 2))"
      using True by (rule halvings_step)
    ultimately show ?thesis by simp
  next
    case False
    then have "halvings x = 0"
      by (simp add: halvings_stop)
    then show ?thesis
      using False 1(2) by simp
  qed
qed

lemma doublings_bounds:
  assumes "0 < x" and "x < 1"
  shows "1 \<le> x * 2 ^ doublings x \<and> x * 2 ^ doublings x < 2"
  using assms
proof (induction x rule: doublings.induct)
  case (1 x)
  have step: "doublings x = Suc (doublings (2 * x))"
    using 1(2,3) by (rule doublings_step)
  show ?case
  proof (cases "2 * x < 1")
    case True
    then have "1 \<le> 2 * x * 2 ^ doublings (2 * x) \<and> 2 * x * 2 ^ doublings (2 * x) < 2"
      using 1 by simp
    then show ?thesis
      by (simp add: step mult.assoc mult.left_commute)
  next
    case False
    then have "doublings (2 * x) = 0"
      by (simp add: doublings_stop)
    then show ?thesis
      using False 1(3) by (simp add: step)
  qed
qed

lemma expo_bounds:
  assumes "0 < x"
  shows "2 powi expo x \<le> x" and "x < 2 powi (expo x + 1)"
proof -
  have "2 powi expo x \<le> x \<and> x < 2 powi (expo x + 1)"
  proof (cases "1 \<le> x")
    case True
    then show ?thesis
      using halvings_bounds [OF True]
      by (simp add: expo_def power_int_add)
  next
    case False
    then have lt: "x < 1" by simp
    define d where "d = doublings x"
    have b: "1 \<le> x * 2 ^ d" "x * 2 ^ d < 2"
      using doublings_bounds [OF assms lt] by (simp_all add: d_def)
    have e: "expo x = - int d"
      using False by (simp add: expo_def d_def)
    have p: "(2 :: rat) powi (- int d) = 1 / 2 ^ d"
      by (simp add: power_int_minus field_simps)
    have "1 / 2 ^ d \<le> x"
      using b(1) by (simp add: field_simps)
    moreover have "x < 2 * (1 / 2 ^ d)"
      using b(2) by (simp add: field_simps)
    moreover have "(2 :: rat) powi (- int d + 1) = 2 powi (- int d) * 2 powi 1"
      by (rule power_int_add) simp
    then have "(2 :: rat) powi (- int d + 1) = 2 * (1 / 2 ^ d)"
      by (simp only: p) simp
    ultimately show ?thesis
      by (simp only: e p)
  qed
  then show "2 powi expo x \<le> x" and "x < 2 powi (expo x + 1)"
    by simp_all
qed

lemma powi_less_cancel:
  assumes "(2 :: rat) powi a < 2 powi b"
  shows "a < b"
proof (rule ccontr)
  assume "\<not> a < b"
  then have "b \<le> a" by simp
  then have "(2 :: rat) powi b \<le> 2 powi a"
    by (rule power_int_increasing) simp
  with assms show False by simp
qed

lemma expo_le:
  assumes "0 < x" and "x < 2 powi (k + 1)"
  shows "expo x \<le> k"
proof -
  have "(2 :: rat) powi expo x < 2 powi (k + 1)"
    using expo_bounds(1) [OF assms(1)] assms(2) by (rule le_less_trans)
  then have "expo x < k + 1"
    by (rule powi_less_cancel)
  then show ?thesis by simp
qed

lemma expo_ge:
  assumes "0 < x" and "2 powi k \<le> x"
  shows "k \<le> expo x"
proof -
  have "(2 :: rat) powi k < 2 powi (expo x + 1)"
    using assms(2) expo_bounds(2) [OF assms(1)] by (rule le_less_trans)
  then have "k < expo x + 1"
    by (rule powi_less_cancel)
  then show ?thesis by simp
qed

lemma round_int_of_int: "round_int (of_int z) = z"
  by (simp add: round_int_def)

lemma round_int_cases: "round_int x = \<lfloor>x\<rfloor> \<or> round_int x = \<lfloor>x\<rfloor> + 1"
  by (simp add: round_int_def Let_def)

lemma round_int_mono:
  assumes "x \<le> y"
  shows "round_int x \<le> round_int y"
proof (cases "\<lfloor>x\<rfloor> = \<lfloor>y\<rfloor>")
  case True
  then show ?thesis
    using assms by (simp add: round_int_def Let_def)
next
  case False
  moreover have "\<lfloor>x\<rfloor> \<le> \<lfloor>y\<rfloor>"
    using assms by (rule floor_mono)
  ultimately have "\<lfloor>x\<rfloor> + 1 \<le> \<lfloor>y\<rfloor>"
    by simp
  then show ?thesis
    using round_int_cases [of x] round_int_cases [of y] by linarith
qed

lemma round_int_nonneg: "0 \<le> x \<Longrightarrow> 0 \<le> round_int x"
  using round_int_mono [of 0 x] round_int_of_int [of 0] by simp

lemma round_to_mono:
  assumes "x \<le> y"
  shows "round_to e x \<le> round_to e y"
proof -
  have "x / 2 powi e \<le> y / 2 powi e"
    using assms by (simp add: divide_right_mono)
  then have "round_int (x / 2 powi e) \<le> round_int (y / 2 powi e)"
    by (rule round_int_mono)
  then show ?thesis
    by (simp add: round_to_def)
qed

lemma round_to_exact:
  assumes "e \<le> k"
  shows "round_to e (of_int m * 2 powi k) = of_int m * 2 powi k"
proof -
  have split: "(2 :: rat) powi k = 2 powi (k - e) * 2 powi e"
    using power_int_add [of "2 :: rat" "k - e" e] by simp
  have nat_exp: "(2 :: rat) powi (k - e) = of_int (2 ^ nat (k - e))"
    using assms by (simp add: power_int_nonneg_exp)
  have "of_int m * 2 powi k / 2 powi e = of_int m * (2 :: rat) powi (k - e)"
    by (simp add: split)
  also have "\<dots> = of_int (m * 2 ^ nat (k - e))"
    by (simp only: nat_exp of_int_mult)
  finally have "round_int (of_int m * 2 powi k / 2 powi e) = m * 2 ^ nat (k - e)"
    by (simp only: round_int_of_int)
  then have "round_to e (of_int m * 2 powi k) = of_int (m * 2 ^ nat (k - e)) * 2 powi e"
    by (simp only: round_to_def)
  also have "\<dots> = of_int m * (2 powi (k - e) * 2 powi e)"
    by (simp only: of_int_mult nat_exp mult.assoc)
  finally show ?thesis
    by (simp only: split [symmetric])
qed

lemma round_to_nonneg: "0 \<le> x \<Longrightarrow> 0 \<le> round_to e x"
  by (simp add: round_to_def round_int_nonneg)

lemma rnd_0: "rnd 0 = 0"
  by (simp add: rnd_def round_to_def round_int_def)

lemma rnd_nonneg: "0 \<le> x \<Longrightarrow> 0 \<le> rnd x"
  by (simp add: rnd_def round_to_nonneg)

lemma rnd_exact:
  assumes "\<bar>m\<bar> < 2 ^ 24" and "- 149 \<le> k"
  shows "rnd (of_int m * 2 powi k) = of_int m * 2 powi k"
proof (cases "m = 0")
  case True
  then show ?thesis by (simp add: rnd_0)
next
  case False
  define x :: rat where "x = of_int m * 2 powi k"
  have abs_x: "\<bar>x\<bar> = of_int \<bar>m\<bar> * 2 powi k"
    by (simp add: x_def abs_mult)
  have pos: "0 < \<bar>x\<bar>"
    using False by (simp add: x_def)
  have "(of_int \<bar>m\<bar> :: rat) < of_int (2 ^ 24)"
    using assms(1) by (simp only: of_int_less_iff)
  then have "\<bar>x\<bar> < 2 ^ 24 * 2 powi k"
    by (simp add: abs_x)
  also have "(2 :: rat) ^ 24 * 2 powi k = 2 powi (23 + k + 1)"
    using power_int_add [of "2 :: rat" 24 k] by (simp add: add.commute)
  finally have "expo \<bar>x\<bar> \<le> 23 + k"
    using pos by (intro expo_le)
  then have "max (expo \<bar>x\<bar> - 23) (- 149) \<le> k"
    using assms(2) by simp
  then have "round_to (max (expo \<bar>x\<bar> - 23) (- 149)) (of_int m * 2 powi k)
      = of_int m * 2 powi k"
    by (rule round_to_exact)
  then show ?thesis
    by (simp add: rnd_def x_def)
qed

lemma expo_mono:
  assumes "0 < x" and "x \<le> y"
  shows "expo x \<le> expo y"
proof -
  have "2 powi expo x \<le> y"
    using expo_bounds(1) [OF assms(1)] assms(2) by (rule order_trans)
  moreover have "0 < y"
    using assms by simp
  ultimately show ?thesis
    by (intro expo_ge)
qed

lemma rnd_mono:
  assumes "0 \<le> x" and "x \<le> y"
  shows "rnd x \<le> rnd y"
proof (cases "x = 0")
  case True
  then show ?thesis
    using assms rnd_nonneg [of y] by (simp add: rnd_0)
next
  case False
  then have x: "0 < x" and y: "0 < y"
    using assms by simp_all
  define ex where "ex = max (expo x - 23) (- 149)"
  define ey where "ey = max (expo y - 23) (- 149)"
  have rx: "rnd x = round_to ex x" and ry: "rnd y = round_to ey y"
    using x y by (simp_all add: rnd_def ex_def ey_def)
  have le: "ex \<le> ey"
    using expo_mono [OF x assms(2)] by (simp add: ex_def ey_def)
  show ?thesis
  proof (cases "ex = ey")
    case True
    then show ?thesis
      using round_to_mono [OF assms(2)] by (simp add: rx ry)
  next
    case False
    then have lt: "ex < ey"
      using le by simp
    then have ey: "ey = expo y - 23"
      by (simp add: ex_def ey_def max_def split: if_splits)
    have step: "expo x + 1 \<le> expo y"
      using lt ey by (simp add: ex_def)
    define p :: rat where "p = 2 powi expo y"
    have "x < 2 powi (expo x + 1)"
      using x by (rule expo_bounds(2))
    also have "(2 :: rat) powi (expo x + 1) \<le> p"
      unfolding p_def using step by (rule power_int_increasing) simp
    finally have xp: "x \<le> p" by simp
    have py: "p \<le> y"
      unfolding p_def using y by (rule expo_bounds(1))
    have p1: "p = of_int 1 * 2 powi expo y"
      by (simp add: p_def)
    have "round_to ex p = p"
      unfolding p1 by (rule round_to_exact) (use lt ey in simp)
    then have "rnd x \<le> p"
      using round_to_mono [OF xp, of ex] by (simp add: rx)
    moreover have "round_to ey p = p"
      unfolding p1 by (rule round_to_exact) (simp add: ey)
    then have "p \<le> rnd y"
      using round_to_mono [OF py, of ey] by (simp add: ry)
    ultimately show ?thesis by simp
  qed
qed

lemma T_max_pos: "0 < T_max"
  by (simp add: T_max_def)

lemma round32_finite:
  assumes "\<bar>rnd x\<bar> \<le> T_max"
  shows "round32 x = Finite (rnd x)"
proof -
  have "\<not> T_max < rnd x" and "\<not> rnd x < - T_max"
    using assms by linarith+
  then show ?thesis
    by (simp add: round32_def Let_def)
qed

lemma is_float_iff: "is_float x \<longleftrightarrow> rnd x = x \<and> \<bar>x\<bar> \<le> T_max"
proof
  assume "is_float x"
  then have "rnd x = x \<and> \<not> T_max < rnd x \<and> \<not> rnd x < - T_max"
    by (simp add: is_float_def round32_def Let_def split: if_splits)
  then show "rnd x = x \<and> \<bar>x\<bar> \<le> T_max"
    by (simp add: abs_le_iff)
next
  assume "rnd x = x \<and> \<bar>x\<bar> \<le> T_max"
  then show "is_float x"
    using round32_finite [of x] by (simp add: is_float_def)
qed

lemma rnd_lattice: "\<exists>m. rnd x = of_int m * 2 powi (- 149)"
proof -
  define e where "e = max (expo \<bar>x\<bar> - 23) (- 149)"
  define z where "z = round_int (x / 2 powi e)"
  have "(2 :: rat) powi e = 2 powi (e + 149) * 2 powi (- 149)"
    using power_int_add [of "2 :: rat" "e + 149" "- 149"] by simp
  also have "(2 :: rat) powi (e + 149) = of_int (2 ^ nat (e + 149))"
    by (simp add: power_int_nonneg_exp e_def)
  finally have "rnd x = of_int (z * 2 ^ nat (e + 149)) * 2 powi (- 149)"
    by (simp add: rnd_def round_to_def e_def z_def)
  then show ?thesis ..
qed

lemma float_gap:
  assumes "is_float x" and "is_float y" and "x < y"
  shows "2 powi (- 149) \<le> y - x"
proof -
  obtain m where m: "x = of_int m * 2 powi (- 149)"
    using rnd_lattice [of x] assms(1) by (auto simp: is_float_iff)
  obtain k where k: "y = of_int k * 2 powi (- 149)"
    using rnd_lattice [of y] assms(2) by (auto simp: is_float_iff)
  define c :: rat where "c = 2 powi (- 149)"
  have c: "0 < c"
    by (simp add: c_def)
  have "of_int m * c < of_int k * c"
    using assms(3) m k by (simp only: c_def)
  then have "(of_int m :: rat) < of_int k"
    using c by (simp only: mult_less_cancel_right_pos)
  then have "m + 1 \<le> k" by simp
  then have "(of_int (m + 1) :: rat) \<le> of_int k"
    by (simp only: of_int_le_iff)
  then have "of_int (m + 1) * c \<le> of_int k * c"
    using c by (simp only: mult_le_cancel_right_pos)
  then have "c \<le> of_int k * c - of_int m * c"
    by (simp add: algebra_simps)
  then show ?thesis
    by (simp only: m k c_def)
qed

lemma rnd_T_max: "rnd T_max = T_max"
  using rnd_exact [of "2 ^ 24 - 1" 104] by (simp add: T_max_def)

lemma rnd_le_T_max:
  assumes "0 \<le> x" and "x \<le> T_max"
  shows "round32 x = Finite (rnd x)"
proof -
  have "rnd x \<le> T_max"
    using rnd_mono [OF assms] by (simp add: rnd_T_max)
  then show ?thesis
    using rnd_nonneg [OF assms(1)] by (intro round32_finite) simp
qed

lemma rnd_least:
  assumes "2 powi (- 149) \<le> x"
  shows "2 powi (- 149) \<le> rnd x"
proof -
  have "rnd (of_int 1 * 2 powi (- 149)) = of_int 1 * 2 powi (- 149)"
    by (rule rnd_exact) simp_all
  then have "rnd (2 powi (- 149)) = 2 powi (- 149)"
    by simp
  moreover have "rnd (2 powi (- 149)) \<le> rnd x"
    using assms by (intro rnd_mono) simp_all
  ultimately show ?thesis by simp
qed

lemma rnd_of_nat:
  assumes "n \<le> 2 ^ 24"
  shows "rnd (of_nat n) = of_nat n"
proof (cases "n = 2 ^ 24")
  case True
  then show ?thesis
    using rnd_exact [of "2 ^ 23" 1] by simp
next
  case False
  then have "int n < 2 ^ 24"
    using assms by simp
  then show ?thesis
    using rnd_exact [of "int n" 0] by simp
qed

section \<open>Helper lemmas\<close>

lemma size_sub_small:
  assumes "b \<le> a" and "a < SIZE_RANGE"
  shows "size_sub a b = a - b"
proof -
  have "b mod SIZE_RANGE = b"
    using assms by simp
  then have "size_sub a b = (a + SIZE_RANGE - b) mod SIZE_RANGE"
    by (simp only: size_sub_def)
  also have "a + SIZE_RANGE - b = (a - b) + SIZE_RANGE"
    using assms(1) by simp
  also have "((a - b) + SIZE_RANGE) mod SIZE_RANGE = (a - b) mod SIZE_RANGE"
    by (simp only: mod_add_self2)
  also have "\<dots> = a - b"
    using assms(2) by (simp only: mod_less less_imp_diff_less)
  finally show ?thesis .
qed

lemma size_mul_small:
  assumes "a * b < SIZE_RANGE"
  shows "size_mul a b = a * b"
  using assms by (simp add: size_mul_def)

lemma levels_small:
  assumes "1 \<le> rows" and "rows * TICKS \<le> 2 ^ 31"
  shows "levels rows = rows * TICKS - 1"
proof -
  have "rows * TICKS < SIZE_RANGE"
    using assms(2) by (simp add: SIZE_RANGE_def)
  moreover have "1 \<le> rows * TICKS"
    using assms(1) by (simp add: TICKS_def)
  ultimately show ?thesis
    by (simp add: levels_def size_mul_small size_sub_small)
qed

lemma float_to_int_floor:
  assumes "0 \<le> \<lfloor>x\<rfloor>" and "\<lfloor>x\<rfloor> < 2 ^ 31"
  shows "float_to_int (ffloor (Finite x)) = Some \<lfloor>x\<rfloor>"
proof -
  define k where "k = \<lfloor>x\<rfloor>"
  have k: "0 \<le> k" "k < 2 ^ 31"
    using assms by (simp_all only: k_def)
  have "float_to_int (Finite (of_int k)) = Some k"
    using k by simp
  then show ?thesis
    by (simp only: ffloor.simps k_def)
qed

lemma adapt_range_defined:
  assumes "\<forall>i \<in> set is. i < length data"
  shows "\<exists>r. adapt_range data is acc = Some r"
  using assms
proof (induction "is" arbitrary: acc)
  case Nil
  then show ?case by (cases acc) simp
next
  case (Cons i "is")
  then show ?case by (cases acc) (simp add: read_def)
qed

lemma resolve_range_defined:
  assumes "n \<le> length data"
  shows "\<exists>r. resolve_range data n minv0 maxv0 = Some r"
proof (cases "min minv0 T_max = T_max \<and> max maxv0 T_min = T_min")
  case True
  have "\<forall>i \<in> set [0 ..< n]. i < length data"
    using assms by simp
  then have "\<exists>r. adapt_range data [0 ..< n] (min minv0 T_max, max maxv0 T_min) = Some r"
    by (rule adapt_range_defined)
  moreover have "resolve_range data n minv0 maxv0
      = adapt_range data [0 ..< n] (min minv0 T_max, max maxv0 T_min)"
    using True by (simp add: resolve_range_def Let_def)
  ultimately show ?thesis by simp
next
  case False
  then show ?thesis
    unfolding resolve_range_def Let_def by (simp only: if_False) simp
qed




lemma to_int_small:
  assumes "0 \<le> k" and "k < 2 ^ 31"
  shows "to_int k = k"
proof -
  have "(k + 2 ^ 31) mod 2 ^ 32 = k + 2 ^ 31"
    using assms by (simp add: mod_pos_pos_trivial)
  then show ?thesis by (simp add: to_int_def)
qed

lemma to_unsigned_small:
  assumes "0 \<le> k" and "k < 2 ^ 32"
  shows "to_unsigned k = k"
  using assms by (simp add: to_unsigned_def mod_pos_pos_trivial)

lemma effective_width_clamped:
  assumes "ENCLOSURE_WIDTH \<le> tw" and "tw < SIZE_RANGE"
  shows "effective_width tw True wide n \<le> tw - ENCLOSURE_WIDTH"
proof -
  have "size_sub tw ENCLOSURE_WIDTH = tw - ENCLOSURE_WIDTH"
    using assms by (rule size_sub_small)
  then show ?thesis
    by (simp add: effective_width_def Let_def)
qed

lemma effective_width_unboxed: "effective_width tw False wide n \<le> tw"
  by (simp add: effective_width_def Let_def)

lemma effective_width_zero:
  "effective_width tw box 0 n = effective_width tw box n n"
  by (simp add: effective_width_def Let_def)

lemma single_tick:
  assumes "w < x_ticks_separation n"
  shows "x_ticks_number w n = 1" and "x_ticks w n = [size_sub w 1]"
    and "x_ticks_values w n = [n]"
  using assms by (simp_all add: x_ticks_number_def x_ticks_def x_ticks_values_def)

lemma several_ticks:
  assumes "x_ticks_separation n \<le> w"
  shows "2 \<le> x_ticks_number w n" and "x_ticks w n ! 0 = 0" and "x_ticks_values w n ! 0 = 0"
proof -
  have "0 < x_ticks_separation n"
    by (simp add: x_ticks_separation_def)
  then have "1 \<le> w div x_ticks_separation n"
    using assms by (simp add: Suc_le_eq div_greater_zero_iff)
  then show num: "2 \<le> x_ticks_number w n"
    by (simp add: x_ticks_number_def)
  then have "[0 ..< x_ticks_number w n - 1] = 0 # [1 ..< x_ticks_number w n - 1]"
    by (simp add: upt_conv_Cons)
  then show "x_ticks w n ! 0 = 0" and "x_ticks_values w n ! 0 = 0"
    by (simp_all add: x_ticks_def x_ticks_values_def size_mul_def)
qed

lemma inner_tick_value:
  assumes "i < x_ticks_number w n - 1"
  shows "x_ticks_values w n ! i = size_mul i n div x_ticks_number w n"
  using assms by (simp add: x_ticks_values_def nth_append)

lemma last_tick:
  "x_ticks w n ! (x_ticks_number w n - 1) = size_sub w 1"
  "x_ticks_values w n ! (x_ticks_number w n - 1) = n"
  by (simp_all add: x_ticks_def x_ticks_values_def nth_append)

lemma finish_box_labels:
  assumes "finish_box w n = Some lower"
  shows "\<exists>border labels blank.
           lower = [Str newline, Str BOX_SW_CORNER] @ border
                   @ [Str BOX_SE_CORNER, Str (newline @ '' ''), Idx (x_ticks_values w n ! 0)]
                   @ labels @ [blank, Idx n, Str newline]"
proof -
  define st where "st = tick_labels (x_ticks_separation n) (x_ticks_values w n)
                          [1 ..< x_ticks_number w n - 1] ([], 1)"
  define blank where "blank = setw_blank (to_int (int
       ((size_sub (size_sub (x_ticks w n ! (x_ticks_number w n - 1)) (snd st))
                  (CharLength n) + 2) mod SIZE_RANGE)))"
  from assms obtain border where
    "lower = [Str newline, Str BOX_SW_CORNER] @ border
             @ [Str BOX_SE_CORNER, Str (newline @ '' ''), Idx (x_ticks_values w n ! 0)]
             @ fst st @ [blank, Idx (x_ticks_values w n ! (x_ticks_number w n - 1)), Str newline]"
    unfolding finish_box_def Let_def st_def blank_def
    by (auto split: Option.bind_splits)
  then have "lower = [Str newline, Str BOX_SW_CORNER] @ border
             @ [Str BOX_SE_CORNER, Str (newline @ '' ''), Idx (x_ticks_values w n ! 0)]
             @ fst st @ [blank, Idx n, Str newline]"
    by (simp only: last_tick)
  then show ?thesis by blast
qed

lemma bins_no_columns: "bins data n 0 = []"
  by (simp add: bins_def Let_def)

lemma round32_0: "round32 0 = Finite 0"
  using round32_finite [of 0] T_max_pos by (simp add: rnd_0)

lemma round32_float: "is_float x \<Longrightarrow> round32 x = Finite x"
  by (simp add: is_float_def)

lemma of_size_exact:
  assumes "n \<le> 2 ^ 24"
  shows "of_size n = Finite (of_nat n)"
proof -
  have r: "rnd (of_nat n) = of_nat n"
    using assms by (rule rnd_of_nat)
  have "(of_nat n :: rat) \<le> of_nat (2 ^ 24)"
    using assms by (simp only: of_nat_le_iff)
  also have "\<dots> \<le> T_max"
    by (simp add: T_max_def)
  finally have "\<bar>rnd (of_nat n)\<bar> \<le> T_max"
    by (simp add: r)
  then show ?thesis
    by (simp add: of_size_def round32_finite r)
qed

lemma round32_1: "round32 1 = Finite 1"
  using of_size_exact [of 1] by (simp add: of_size_def)

lemma of_size_tie: "of_size (2 ^ 24 + 1) = Finite (2 ^ 24)"
  by (simp add: machine_defs Let_def floor_rat_numeral)

lemma clamp_cases:
  assumes "lo \<le> hi"
  shows "\<exists>d. std_min (Finite hi) (std_max (Finite lo) b) = Finite d \<and> lo \<le> d \<and> d \<le> hi
             \<and> (fless b (Finite lo) \<longrightarrow> d = lo) \<and> (fless (Finite hi) b \<longrightarrow> d = hi)"
  using assms by (cases b) (auto simp: std_min_def std_max_def)

lemma cell_index_flat: "cell_index m m lv b = None"
proof -
  obtain d where "std_min (Finite m) (std_max (Finite m) b) = Finite d" and "d = m"
    using clamp_cases [of m m b] by auto
  then show ?thesis
    by (simp add: cell_index_def Let_def fsub_def round32_0)
qed

lemma bin_identity:
  assumes "i < n" and "n \<le> length data" and "n \<le> 2 ^ 24 + 1" and "is_float (data ! i)"
  shows "bin data n (Finite 1) i = Some (Finite (data ! i))"
proof -
  have i: "i \<le> 2 ^ 24" "i < length data"
    using assms by simp_all
  have r: "round32 (data ! i) = Finite (data ! i)"
    using assms(4) by (rule round32_float)
  have lower: "bin_slices_indices (Finite 1) i = Finite (of_nat i)"
    using of_size_exact [OF i(1)] by (simp add: bin_slices_indices_def of_size_def)
  have l: "to_size (Finite (of_nat i)) = Some i"
    using i(1) by (simp add: SIZE_RANGE_def)
  have first: "fadd (Finite 0)
      (fmul (fsub (Finite 1) (fsub (Finite (of_nat i)) (of_size i))) (Finite (data ! i)))
      = Finite (data ! i)"
    by (simp add: of_size_exact [OF i(1)] fsub_def round32_0 round32_1 r)
  have mass: "fdiv (Finite (data ! i)) (fdiv (Finite 1) (Finite 1)) = Finite (data ! i)"
    by (simp add: round32_1 r)
  show ?thesis
  proof (cases "Suc i \<le> 2 ^ 24")
    case True
    have upper: "bin_slices_indices (Finite 1) (i + 1) = Finite (of_nat (Suc i))"
      using of_size_exact [OF True] by (simp add: bin_slices_indices_def of_size_def)
    have u: "to_size (Finite (of_nat (Suc i))) = Some (Suc i)"
      using True by (simp add: SIZE_RANGE_def del: of_nat_Suc)
    have last: "fadd (Finite (data ! i)) (fmul (fsub (Finite (of_nat (Suc i))) (of_size (Suc i)))
        (Finite d)) = Finite (data ! i)" for d
      by (simp add: of_size_exact [OF True] fsub_def round32_0 r del: of_nat_Suc)
    show ?thesis
      unfolding bin_def Let_def lower upper
      using assms(2) i(2)
      by (simp add: l u first last mass read_def del: of_nat_Suc fdiv.simps to_size.simps)
  next
    case False
    then have i_eq: "i = 2 ^ 24"
      using i(1) by simp
    then have n_eq: "n = 2 ^ 24 + 1"
      using assms(1,3) by simp
    have upper: "bin_slices_indices (Finite 1) (i + 1) = Finite (of_nat i)"
      using of_size_tie of_size_exact [OF i(1)]
      by (simp add: bin_slices_indices_def i_eq) (simp add: of_size_def)
    have last: "fadd (Finite (data ! i)) (fmul (fsub (Finite (of_nat i)) (of_size i))
        (Finite d)) = Finite (data ! i)" for d
      by (simp add: of_size_exact [OF i(1)] fsub_def round32_0 r)
    show ?thesis
      unfolding bin_def Let_def lower upper
      using assms(1) i(2)
      by (simp add: l first last mass read_def del: fdiv.simps to_size.simps)
  qed
qed

lemma bins_nth:
  assumes "i < w"
  shows "bins data n w ! i = bin data n (fdiv (of_size w) (of_size n)) i"
  using assms by (simp add: bins_def Let_def)

lemma scale_one:
  assumes "1 \<le> n" and "n \<le> 2 ^ 24 + 1"
  shows "fdiv (of_size n) (of_size n) = Finite 1"
proof (cases "n \<le> 2 ^ 24")
  case True
  then show ?thesis
    using assms(1) by (simp add: of_size_exact round32_1)
next
  case False
  then have "n = 2 ^ 24 + 1"
    using assms(2) by simp
  then show ?thesis
    using of_size_tie by (simp add: round32_1)
qed

lemma cell_index_range:
  assumes "is_float lo" and "is_float hi" and "lo < hi" and "hi - lo \<le> T_max"
    and "L < 2 ^ 24"
  shows "\<exists>k. cell_index lo hi L b = Some k \<and> 0 \<le> k \<and> k \<le> int L
             \<and> (fless b (Finite lo) \<longrightarrow> k = 0) \<and> (fless (Finite hi) b \<longrightarrow> k = int L)"
proof -
  obtain d where clamp: "std_min (Finite hi) (std_max (Finite lo) b) = Finite d"
    and d: "lo \<le> d" "d \<le> hi"
    and ends: "fless b (Finite lo) \<longrightarrow> d = lo" "fless (Finite hi) b \<longrightarrow> d = hi"
    using clamp_cases [of lo hi b] assms(3) by auto
  define D where "D = rnd (hi - lo)"
  define N where "N = rnd (d - lo)"
  define F where "F = rnd (N / D)"
  define P where "P = rnd (F * of_nat L)"
  have "2 powi (- 149) \<le> hi - lo"
    using assms(1,2,3) by (rule float_gap)
  then have "2 powi (- 149) \<le> D"
    unfolding D_def by (rule rnd_least)
  moreover have "(0 :: rat) < 2 powi (- 149)"
    by simp
  ultimately have D_pos: "0 < D"
    by (rule less_le_trans [rotated])
  have den: "fsub (Finite hi) (Finite lo) = Finite D"
    using rnd_le_T_max [of "hi - lo"] assms(3,4) by (simp add: fsub_def D_def)
  have N: "0 \<le> N" "N \<le> D"
    using d rnd_nonneg [of "d - lo"] rnd_mono [of "d - lo" "hi - lo"]
    by (simp_all add: N_def D_def)
  have num: "fsub (Finite d) (Finite lo) = Finite N"
    using rnd_le_T_max [of "d - lo"] d assms(4) by (simp add: fsub_def N_def)
  have one: "rnd 1 = 1"
    using rnd_of_nat [of 1] by simp
  have q: "0 \<le> N / D" "N / D \<le> 1"
    using N D_pos by simp_all
  have F: "0 \<le> F" "F \<le> 1"
    using q rnd_nonneg [of "N / D"] rnd_mono [of "N / D" 1] by (simp_all add: F_def one)
  have "(1 :: rat) \<le> T_max"
    by (simp add: T_max_def)
  then have frac: "fdiv (Finite N) (Finite D) = Finite F"
    using rnd_le_T_max [of "N / D"] q D_pos by (simp add: F_def)
  have L: "of_size L = Finite (of_nat L)" "rnd (of_nat L) = of_nat L"
    using assms(5) by (simp_all add: of_size_exact rnd_of_nat)
  have prod: "0 \<le> F * of_nat L" "F * of_nat L \<le> of_nat L"
    using F by (simp_all add: mult_left_le_one_le)
  have P: "0 \<le> P" "P \<le> of_nat L"
    using prod rnd_nonneg [of "F * of_nat L"] rnd_mono [of "F * of_nat L" "of_nat L"]
    by (simp_all add: P_def L(2))
  have "(of_nat L :: rat) \<le> of_nat (2 ^ 24)"
    using assms(5) by (simp only: of_nat_le_iff)
  also have "\<dots> \<le> T_max"
    by (simp add: T_max_def)
  finally have "F * of_nat L \<le> T_max"
    using prod(2) by simp
  then have scaled: "fmul (Finite F) (Finite (of_nat L)) = Finite P"
    using rnd_le_T_max [of "F * of_nat L"] prod(1) by (simp add: P_def)
  have "\<lfloor>P\<rfloor> \<le> \<lfloor>(of_nat L :: rat)\<rfloor>"
    using P(2) by (rule floor_mono)
  then have fl: "0 \<le> \<lfloor>P\<rfloor>" "\<lfloor>P\<rfloor> \<le> int L"
    using P(1) by simp_all
  have "int L < 2 ^ 31"
    using assms(5) by simp
  with fl(2) have "\<lfloor>P\<rfloor> < 2 ^ 31"
    by (rule le_less_trans)
  with fl(1) have conv: "float_to_int (ffloor (Finite P)) = Some \<lfloor>P\<rfloor>"
    by (rule float_to_int_floor)
  have res: "cell_index lo hi L b = Some \<lfloor>P\<rfloor>"
    by (simp only: cell_index_def Let_def clamp num den frac L(1) scaled conv)
  have low: "\<lfloor>P\<rfloor> = 0" if "d = lo"
    using that by (simp add: P_def F_def N_def rnd_0)
  have high: "\<lfloor>P\<rfloor> = int L" if "d = hi"
    using that D_pos by (simp add: P_def F_def N_def D_def [symmetric] one L(2))
  show ?thesis
    using res fl ends low high by auto
qed


lemma those_map_Some: "those (map (\<lambda>x. Some (g x)) xs) = Some (map g xs)"
  by (induction xs) simp_all

lemma those_map_defined:
  assumes "\<forall>x \<in> set xs. \<exists>y. f x = Some y"
  shows "\<exists>ys. those (map f xs) = Some ys"
  using assms
proof (induction xs)
  case Nil
  then show ?case by simp
next
  case (Cons x xs)
  then obtain y ys where "f x = Some y" "those (map f xs) = Some ys"
    by auto
  then show ?case by simp
qed

lemma line_indices:
  assumes "0 \<le> line" and "line < 2 ^ 28"
  shows "to_int (to_unsigned (line * int TICKS)) = line * int TICKS"
    and "to_int (to_unsigned (line * int TICKS + (int TICKS - 1))) = line * int TICKS + 7"
proof -
  have a: "0 \<le> line * int TICKS" "line * int TICKS < 2 ^ 31"
    using assms by (simp_all add: TICKS_def)
  then have "to_unsigned (line * int TICKS) = line * int TICKS"
    by (intro to_unsigned_small) simp_all
  then show "to_int (to_unsigned (line * int TICKS)) = line * int TICKS"
    using a by (simp add: to_int_small)
  have b: "0 \<le> line * int TICKS + (int TICKS - 1)" "line * int TICKS + (int TICKS - 1) < 2 ^ 31"
    using assms by (simp_all add: TICKS_def)
  then have "to_unsigned (line * int TICKS + (int TICKS - 1)) = line * int TICKS + (int TICKS - 1)"
    by (intro to_unsigned_small) simp_all
  then show "to_int (to_unsigned (line * int TICKS + (int TICKS - 1))) = line * int TICKS + 7"
    using b by (simp add: to_int_small) (simp add: TICKS_def)
qed



lemma plot_line_defined:
  assumes "bs = [] \<or> (is_float lo \<and> is_float hi \<and> lo < hi \<and> hi - lo \<le> T_max
                        \<and> 1 \<le> rows \<and> rows * TICKS \<le> 2 ^ 24)"
    and "0 \<le> line" and "line < 2 ^ 28"
  shows "\<exists>row. plot_line rows box lo hi bs line = Some row"
proof -
  have idx: "to_int (to_unsigned (line * int TICKS)) = line * int TICKS"
    "to_int (to_unsigned (line * int TICKS + (int TICKS - 1))) = line * int TICKS + 7"
    using assms(2,3) by (rule line_indices)+
  have "\<exists>c. cell lo hi (levels rows) (line * int TICKS) (line * int TICKS + 7) b = Some c"
    if "b \<in> set bs" for b
  proof -
    from that assms(1) have range: "is_float lo" "is_float hi" "lo < hi" "hi - lo \<le> T_max"
      and rows: "1 \<le> rows" "rows * TICKS \<le> 2 ^ 24"
      by auto
    have "rows * TICKS \<le> 2 ^ 31"
      using rows(2) by simp
    then have lv: "levels rows = rows * TICKS - 1"
      using rows(1) by (intro levels_small)
    have "rows * TICKS - 1 < 2 ^ 24"
      using rows by (simp add: TICKS_def)
    then obtain k where k: "cell_index lo hi (levels rows) b = Some k"
      using cell_index_range [OF range, of "rows * TICKS - 1" b] unfolding lv by blast
    show ?thesis
    proof (cases "k < line * int TICKS \<or> line * int TICKS + 7 < k")
      case True
      then show ?thesis
        by (auto simp: cell_def k tick_def TICKS_def)
    next
      case False
      then have "0 \<le> k - line * int TICKS" "k - line * int TICKS < int TICKS"
        by (simp_all add: TICKS_def)
      then have "\<exists>g. tick (k - line * int TICKS) = Some g"
        by (simp add: tick_def)
      with False show ?thesis
        by (auto simp: cell_def k)
    qed
  qed
  then have "\<forall>b \<in> set bs.
      \<exists>c. cell lo hi (levels rows) (line * int TICKS) (line * int TICKS + 7) b = Some c"
    by blast
  then obtain cells where
    "those (map (cell lo hi (levels rows) (line * int TICKS) (line * int TICKS + 7)) bs)
     = Some cells"
    using those_map_defined by blast
  then show ?thesis
    by (simp add: plot_line_def Let_def idx)
qed

lemma plot_lines_defined:
  assumes "bs = [] \<or> (is_float lo \<and> is_float hi \<and> lo < hi \<and> hi - lo \<le> T_max
                        \<and> 1 \<le> rows \<and> rows * TICKS \<le> 2 ^ 24)"
    and "rows < 2 ^ 28"
  shows "\<exists>body. plot_lines rows box lo hi bs = Some body"
proof -
  have top: "to_int (int rows) = int rows"
    using assms(2) by (intro to_int_small) simp_all
  have "\<exists>row. plot_line rows box lo hi bs line = Some row"
    if "line \<in> set (rev (map int [0 ..< rows]))" for line
  proof -
    from that have "0 \<le> line" "line < int rows"
      by auto
    then have "0 \<le> line" "line < 2 ^ 28"
      using assms(2) by simp_all
    with assms(1) show ?thesis
      by (rule plot_line_defined)
  qed
  then have "\<forall>line \<in> set (rev (map int [0 ..< rows])).
      \<exists>row. plot_line rows box lo hi bs line = Some row"
    by blast
  then obtain rs where
    "those (map (plot_line rows box lo hi bs) (rev (map int [0 ..< rows]))) = Some rs"
    using those_map_defined by blast
  then show ?thesis
    by (simp add: plot_lines_def Let_def top)
qed

lemma lower_border_defined:
  assumes "k < length xt" and "xt ! (length xt - 1) = w - 1"
  shows "\<exists>out. lower_border xt k [i ..< w] = Some out"
  using assms(1)
proof (induction "w - i" arbitrary: i k)
  case 0
  then show ?case by simp
next
  case (Suc d)
  have i: "i < w"
    using Suc.hyps(2) by simp
  have d: "d = w - Suc i"
    using Suc.hyps(2) by simp
  have split: "[i ..< w] = i # [Suc i ..< w]"
    using i by (rule upt_conv_Cons)
  note IH = Suc.hyps(1) [OF d]
  show ?case
  proof (cases "i = xt ! k")
    case False
    obtain out where "lower_border xt k [Suc i ..< w] = Some out"
      using IH [OF Suc.prems] by blast
    then show ?thesis
      unfolding split using False Suc.prems by simp
  next
    case match: True
    show ?thesis
    proof (cases "k + 1 < length xt")
      case True
      obtain out where "lower_border xt (k + 1) [Suc i ..< w] = Some out"
        using IH [OF True] by blast
      then show ?thesis
        unfolding split using match Suc.prems by simp
    next
      case False
      with Suc.prems have "k = length xt - 1" by simp
      with match assms(2) i have "Suc i = w" by simp
      then have nil: "[Suc i ..< w] = []" by simp
      have "lower_border xt k [i] = Some [Str BOX_H_BORDER_TICK]"
        using match Suc.prems by simp
      then show ?thesis
        unfolding split nil by blast
    qed
  qed
qed


lemma finish_box_defined:
  assumes "w < SIZE_RANGE"
  shows "\<exists>lower. finish_box w n = Some lower"
proof -
  have len: "length (x_ticks w n) = x_ticks_number w n" "0 < x_ticks_number w n"
    by (simp_all add: x_ticks_def x_ticks_number_def)
  have "\<exists>out. lower_border (x_ticks w n) 0 [0 ..< w] = Some out"
  proof (cases "w = 0")
    case True
    then show ?thesis by simp
  next
    case False
    then have "size_sub w 1 = w - 1"
      using assms by (intro size_sub_small) simp_all
    then have "x_ticks w n ! (length (x_ticks w n) - 1) = w - 1"
      unfolding len by (simp only: last_tick)
    with len show ?thesis
      by (intro lower_border_defined) simp_all
  qed
  then show ?thesis
    by (auto simp: finish_box_def Let_def)
qed







lemma plot_lines_no_columns:
  assumes "rows < 2 ^ 31"
  shows "plot_lines rows box lo hi [] = Some (concat (map
           (\<lambda>line. (if box then Str BOX_V_BORDER # right_border rows line lo hi else [])
                    @ (if 0 < line then [Str newline] else []))
           (rev (map int [0 ..< rows]))))"
proof -
  have top: "to_int (int rows) = int rows"
    using assms by (intro to_int_small) simp_all
  have "plot_line rows box lo hi [] = (\<lambda>line. Some
      ((if box then Str BOX_V_BORDER # right_border rows line lo hi else [])
       @ (if 0 < line then [Str newline] else [])))"
    by (rule ext) (simp add: plot_line_def Let_def)
  then show ?thesis
    by (simp add: plot_lines_def Let_def top those_map_Some)
qed

lemma Sparkline_returns:
  assumes "1 \<le> length data" and "length data \<le> 2 ^ 24 + 1" and "\<forall>x \<in> set data. is_float x"
    and "effective_width tw box wide (length data) = length data"
    and "resolve_range data (length data) lo0 hi0 = Some (lo, hi)"
    and "is_float lo" and "is_float hi" and "lo < hi" and "hi - lo \<le> T_max"
    and "1 \<le> rows" and "rows * TICKS \<le> 2 ^ 24"
  shows "\<exists>out. Sparkline tw data (length data) rows wide box colored caption lo0 hi0 = Inr out"
proof -
  define n where "n = length data"
  have scale: "fdiv (of_size n) (of_size n) = Finite 1"
    using assms(1,2) unfolding n_def by (rule scale_one)
  have "\<exists>b. bin data n (Finite 1) i = Some b" if "i \<in> set [0 ..< n]" for i
    using that assms(2,3) bin_identity [of i n data] by (simp add: n_def)
  then have "\<forall>i \<in> set [0 ..< n]. \<exists>b. bin data n (Finite 1) i = Some b"
    by blast
  then obtain bs where "those (map (bin data n (Finite 1)) [0 ..< n]) = Some bs"
    using those_map_defined by blast
  then have bs: "those (bins data n n) = Some bs"
    by (simp add: bins_def Let_def scale)
  have "rows < 2 ^ 28"
    using assms(11) by (simp add: TICKS_def)
  then obtain body where body: "plot_lines rows box lo hi bs = Some body"
    using plot_lines_defined [of bs lo hi rows box] assms(6-11) by blast
  have "n < SIZE_RANGE"
    using assms(2) by (simp add: n_def SIZE_RANGE_def)
  then obtain lower where lower: "finish_box n n = Some lower"
    using finish_box_defined by blast
  have "\<exists>out. assemble data n rows n box caption lo hi = Some out"
    by (simp add: assemble_def Let_def bs body lower)
  then show ?thesis
    using assms(4,5) by (auto simp: Sparkline_def Let_def n_def)
qed

lemma middle_level_overflow: "middle_level 3 1 T_max 27 = MInf"
  by (simp add: machine_defs block_defs cong: eval_congs)

lemma upper_border_long_title:
  assumes "w < length caption"
  shows "upper_border w caption = [Str caption, Str newline]"
  using assms by (auto simp: upper_border_def)

section \<open>The example of the README\<close>

text \<open>
  The README shows what \<^verbatim>\<open>ShowExampleGaussian\<close> prints on a terminal that is wide enough:
  the title in the middle of the upper border; on the top line the glyphs of the levels
  0, 3, 4, 3, 0 in the middle and the label of the maximum, 0.15; on the middle line the
  levels 0, 4, 7, 7, 7, 7, 7, 4, 0 and the label 0.075; on the bottom line the levels
  0, 0, 0, 1, 2, 5, nine times 7, 5, 2, 1, 0, 0, 0 and the label of the minimum, 0; tick
  marks in the columns 0, 6, 12 and 20 of the lower border, and under them the numbers
  0, 5, 10 and 21. The embedding returns this plot, item by item.
\<close>

lemma gaussian_bins:
  "those (bins gaussian 21 21) = Some (map Finite gaussian)"
  by (simp add: gaussian_def machine_defs block_defs cong: eval_congs)

lemma gaussian_plot:
  "plot_lines 3 True 0 (5033165 / 33554432) (map Finite gaussian) = Some
     ([Str BOX_V_BORDER] @ replicate 8 (Str '' '')
      @ map (\<lambda>k. Str (ticks ! k)) [0, 3, 4, 3, 0]
      @ replicate 8 (Str '' '')
      @ [Str BOX_V_BORDER_TICK, Str '' max: '', Num 0 (Finite (5033165 / 33554432)), Str newline]
      @ [Str BOX_V_BORDER] @ replicate 6 (Str '' '')
      @ map (\<lambda>k. Str (ticks ! k)) [0, 4, 7, 7, 7, 7, 7, 4, 0]
      @ replicate 6 (Str '' '')
      @ [Str BOX_V_BORDER_TICK, Str ''      '', Num 0 (Finite (5033165 / 67108864)), Str newline]
      @ [Str BOX_V_BORDER]
      @ map (\<lambda>k. Str (ticks ! k)) [0, 0, 0, 1, 2, 5, 7, 7, 7, 7, 7, 7, 7, 7, 7, 5, 2, 1, 0, 0, 0]
      @ [Str BOX_V_BORDER_TICK, Str '' min: '', Num 0 (Finite 0)])"
  by (simp add: gaussian_def machine_defs block_defs cong: eval_congs)

lemma gaussian_upper:
  "upper_border 21 ''Gaussian'' =
     [Str BOX_NW_CORNER] @ replicate 6 (Str BOX_H_BORDER) @ [Str ''Gaussian'']
     @ replicate 7 (Str BOX_H_BORDER) @ [Str BOX_NE_CORNER, Str newline]"
  by (simp add: machine_defs block_defs cong: eval_congs)

lemma gaussian_ticks:
  "x_ticks 21 21 = [0, 6, 12, 20]" "x_ticks_values 21 21 = [0, 5, 10, 21]"
  by (simp_all add: machine_defs block_defs cong: eval_congs)

lemma gaussian_lower_border:
  "lower_border [0, 6, 12, 20] 0 [0 ..< 21] = Some
     ([Str BOX_H_BORDER_TICK] @ replicate 5 (Str BOX_H_BORDER)
      @ [Str BOX_H_BORDER_TICK] @ replicate 5 (Str BOX_H_BORDER)
      @ [Str BOX_H_BORDER_TICK] @ replicate 7 (Str BOX_H_BORDER)
      @ [Str BOX_H_BORDER_TICK])"
  by (simp add: machine_defs block_defs cong: eval_congs)

lemma CharLength_1: "CharLength (Suc 0) = Suc 0"
  using CharLength_rec [of "Suc 0"] by (simp add: CharLength_0)

lemma gaussian_labels:
  "tick_labels 6 [0, 5, 10, 21] [1 ..< 3] ([], 1) =
     ([Str ''     '', Idx 5, Str ''     '', Idx 10], 14)"
  by (simp add: machine_defs block_defs CharLength_1 cong: eval_congs)

lemma gaussian_finish:
  "finish_box 21 21 = Some
     ([Str newline, Str BOX_SW_CORNER]
      @ [Str BOX_H_BORDER_TICK] @ replicate 5 (Str BOX_H_BORDER)
      @ [Str BOX_H_BORDER_TICK] @ replicate 5 (Str BOX_H_BORDER)
      @ [Str BOX_H_BORDER_TICK] @ replicate 7 (Str BOX_H_BORDER)
      @ [Str BOX_H_BORDER_TICK]
      @ [Str BOX_SE_CORNER, Str (newline @ '' ''), Idx 0, Str ''     '', Idx 5,
         Str ''     '', Idx 10, Str ''      '', Idx 21, Str newline])"
proof -
  have sep: "x_ticks_separation 21 = 6" and num: "x_ticks_number 21 21 = 4"
    by (simp_all add: machine_defs block_defs cong: eval_congs)
  show ?thesis
    unfolding finish_box_def Let_def sep num gaussian_ticks
    by (simp add: gaussian_lower_border gaussian_labels [simplified] size_sub_def SIZE_RANGE_def
          to_int_def setw_blank_def CharLength_numeral CharLength_0 CharLength_1
          replicate_numeral del: upt_rec_numeral)
qed

lemma README_example:
  "Sparkline_vector_config 80 gaussian
     \<lparr>this_many_lines_high = 3, this_many_characters_wide = 0, enclose_in_box = True,
      print_colored = False, title = ''Gaussian'', minv = 0, maxv = 5033165 / 33554432\<rparr>
   = Inr
     ([Str BOX_NW_CORNER] @ replicate 6 (Str BOX_H_BORDER) @ [Str ''Gaussian'']
      @ replicate 7 (Str BOX_H_BORDER) @ [Str BOX_NE_CORNER, Str newline]
      @ [Str BOX_V_BORDER] @ replicate 8 (Str '' '')
      @ map (\<lambda>k. Str (ticks ! k)) [0, 3, 4, 3, 0]
      @ replicate 8 (Str '' '')
      @ [Str BOX_V_BORDER_TICK, Str '' max: '', Num 0 (Finite (5033165 / 33554432)), Str newline]
      @ [Str BOX_V_BORDER] @ replicate 6 (Str '' '')
      @ map (\<lambda>k. Str (ticks ! k)) [0, 4, 7, 7, 7, 7, 7, 4, 0]
      @ replicate 6 (Str '' '')
      @ [Str BOX_V_BORDER_TICK, Str ''      '', Num 0 (Finite (5033165 / 67108864)), Str newline]
      @ [Str BOX_V_BORDER]
      @ map (\<lambda>k. Str (ticks ! k)) [0, 0, 0, 1, 2, 5, 7, 7, 7, 7, 7, 7, 7, 7, 7, 5, 2, 1, 0, 0, 0]
      @ [Str BOX_V_BORDER_TICK, Str '' min: '', Num 0 (Finite 0)]
      @ [Str newline, Str BOX_SW_CORNER]
      @ [Str BOX_H_BORDER_TICK] @ replicate 5 (Str BOX_H_BORDER)
      @ [Str BOX_H_BORDER_TICK] @ replicate 5 (Str BOX_H_BORDER)
      @ [Str BOX_H_BORDER_TICK] @ replicate 7 (Str BOX_H_BORDER)
      @ [Str BOX_H_BORDER_TICK]
      @ [Str BOX_SE_CORNER, Str (newline @ '' ''), Idx 0, Str ''     '', Idx 5,
         Str ''     '', Idx 10, Str ''      '', Idx 21, Str newline])"
proof -
  have len: "length gaussian = 21"
    by (simp add: gaussian_def)
  have range: "resolve_range gaussian 21 0 (5033165 / 33554432) = Some (0, 5033165 / 33554432)"
    by (simp add: resolve_range_def Let_def T_max_def T_min_def)
  have width: "effective_width 80 True 0 21 = 21"
    by (simp add: effective_width_def size_sub_def SIZE_RANGE_def ENCLOSURE_WIDTH_def PREC_def)
  have "assemble gaussian 21 3 21 True ''Gaussian'' 0 (5033165 / 33554432) = Some
     (upper_border 21 ''Gaussian''
      @ the (plot_lines 3 True 0 (5033165 / 33554432) (map Finite gaussian))
      @ the (finish_box 21 21))"
    by (simp add: assemble_def gaussian_bins gaussian_plot gaussian_finish
          del: upt_rec_numeral)
  then show ?thesis
    unfolding Sparkline_vector_config_def Sparkline_vector_def Sparkline_def len
    by (simp add: range width gaussian_upper gaussian_plot gaussian_finish)
qed

section \<open>The claims\<close>

text \<open>
  C1, as amended. With as many columns as samples, and no more than \<open>2 ^ 24 + 1\<close> samples,
  all of them \<^verbatim>\<open>float\<close>s, the scale is 1, every slice \<open>[i, i + 1)\<close> holds exactly sample
  \<open>i\<close>, and bin \<open>i\<close> is sample \<open>i\<close>; so the bins have the same sum as the series. The
  bound comes from the \<^verbatim>\<open>float\<close> that holds the ends of the slices: every index up to
  \<open>2 ^ 24\<close> is a \<^verbatim>\<open>float\<close>, and \<open>2 ^ 24 + 1\<close> rounds to \<open>2 ^ 24\<close>, which still reads the
  right sample.
\<close>

theorem bins_identity:
  assumes "1 \<le> length data" and "length data \<le> 2 ^ 24 + 1" and "\<forall>x \<in> set data. is_float x"
  shows "bins data (length data) (length data) = map (\<lambda>x. Some (Finite x)) data"
proof -
  have scale: "fdiv (of_size (length data)) (of_size (length data)) = Finite 1"
    using assms(1,2) by (rule scale_one)
  have "bin data (length data) (Finite 1) i = Some (Finite (data ! i))" if "i < length data" for i
    using that assms(2,3) by (intro bin_identity) simp_all
  then have "map (bin data (length data) (Finite 1)) [0 ..< length data]
      = map (\<lambda>i. Some (Finite (data ! i))) [0 ..< length data]"
    by simp
  also have "\<dots> = map (\<lambda>x. Some (Finite x)) (map (\<lambda>i. data ! i) [0 ..< length data])"
    by (simp only: map_map comp_def)
  also have "\<dots> = map (\<lambda>x. Some (Finite x)) data"
    by (simp only: map_nth)
  finally show ?thesis
    unfolding bins_def Let_def scale .
qed

theorem bins_identity_witness:
  "1 \<le> length [3, 1, 4 :: rat] \<and> length [3, 1, 4 :: rat] \<le> 2 ^ 24 + 1
   \<and> is_float 3 \<and> is_float 1 \<and> is_float 4
   \<and> bins [3, 1, 4] 3 3 = [Some (Finite 3), Some (Finite 1), Some (Finite 4)]"
  using bins_identity [of "[3, 1, 4]"]
  by (simp add: machine_defs Let_def floor_rat_numeral numeral_3_eq_3)

text \<open>C1 as stated fails for \<open>2 ^ 24 + 2\<close> samples: the ends \<open>2 ^ 24 + 1\<close> and \<open>2 ^ 24 + 2\<close>
  of the last slice are rounded to \<open>2 ^ 24\<close> and \<open>2 ^ 24 + 2\<close>, so the last bin is the sum
  of the last two samples, 2 for a series of ones.\<close>

theorem long_series_counterexample:
  "bins (replicate 16777218 1) 16777218 16777218 ! 16777217 = Some (Finite 2)
   \<and> replicate 16777218 (1 :: rat) ! 16777217 = 1"
  using bins_nth [of 16777217 16777218 "replicate 16777218 1" 16777218]
  by (simp add: machine_defs bin_def bin_slices_indices_def read_def Let_def floor_rat_numeral)

text \<open>
  C2 at a constant series. The range adapts to the data, so the minimum equals the
  maximum; the fraction is then 0 divided by 0, which is not a number, and its
  conversion to the \<^verbatim>\<open>int\<close> level is undefined. No column gets the top glyph by the
  code's own doing. The block that computes the level has no case for a flat range:
  \<open>cell_index_flat\<close> above shows the same for every flat range and every value.
\<close>

theorem flat_range_undefined:
  "Sparkline 80 [5, 5, 5] 3 1 0 False True [] T_max T_min = Inl Undefined"
  by (simp add: machine_defs block_defs cong: eval_congs)

text \<open>
  C3, as amended. With every sample readable, the function throws exactly when the
  width it settles on exceeds the number of samples. No sample at all is not a failure
  by itself: a requested width of 0 then gives a width of 0, which does not exceed 0.
  And a width of 0 is not a failure, with or without samples: the function returns the
  plot without columns, that is, line by line from the top, the left border, the right
  border with its label and the line break if the plot is boxed and the line break
  alone if it is not, between the upper and the lower border of the box.
\<close>

theorem Sparkline_throws_iff:
  assumes "n \<le> length data"
  shows "((\<exists>msg. Sparkline tw data n rows wide box colored caption lo0 hi0
                   = Inl (RuntimeError msg))
          \<longleftrightarrow> n < effective_width tw box wide n)
       \<and> (effective_width tw box wide n = 0 \<and> rows < 2 ^ 31 \<longrightarrow>
            (\<exists>lo hi lower. resolve_range data n lo0 hi0 = Some (lo, hi)
               \<and> (if box then finish_box 0 n else Some []) = Some lower
               \<and> Sparkline tw data n rows wide box colored caption lo0 hi0
                 = Inr ((if box then upper_border 0 caption else [])
                        @ concat (map
                            (\<lambda>line. (if box then Str BOX_V_BORDER # right_border rows line lo hi
                                      else [])
                                     @ (if 0 < line then [Str newline] else []))
                            (rev (map int [0 ..< rows])))
                        @ lower)))"
proof -
  obtain lo hi where r: "resolve_range data n lo0 hi0 = Some (lo, hi)"
    using resolve_range_defined [OF assms] by fastforce
  have throws: "(\<exists>msg. Sparkline tw data n rows wide box colored caption lo0 hi0
                   = Inl (RuntimeError msg))
          \<longleftrightarrow> n < effective_width tw box wide n"
    by (simp add: Sparkline_def r Let_def split: option.split)
  have empty: "\<exists>lower. (if box then finish_box 0 n else Some []) = Some lower
      \<and> Sparkline tw data n rows wide box colored caption lo0 hi0
        = Inr ((if box then upper_border 0 caption else [])
               @ concat (map
                   (\<lambda>line. (if box then Str BOX_V_BORDER # right_border rows line lo hi else [])
                            @ (if 0 < line then [Str newline] else []))
                   (rev (map int [0 ..< rows])))
               @ lower)"
    if w: "effective_width tw box wide n = 0" and rows: "rows < 2 ^ 31"
  proof -
    obtain lower where lower: "(if box then finish_box 0 n else Some []) = Some lower"
      using finish_box_defined [of 0 n] by (cases box) (auto simp: SIZE_RANGE_def)
    have "assemble data n rows 0 box caption lo hi
        = Some ((if box then upper_border 0 caption else [])
               @ concat (map
                   (\<lambda>line. (if box then Str BOX_V_BORDER # right_border rows line lo hi else [])
                            @ (if 0 < line then [Str newline] else []))
                   (rev (map int [0 ..< rows])))
               @ lower)"
      using lower
      by (simp add: assemble_def Let_def bins_no_columns plot_lines_no_columns [OF rows])
    then show ?thesis
      using lower by (simp add: Sparkline_def r w Let_def)
  qed
  show ?thesis
    using throws empty r by blast
qed

theorem Sparkline_throws_iff_witness:
  "(3::nat) \<le> length [1, 2, 3 :: rat] \<and> 3 < effective_width 80 False 5 3
   \<and> (\<exists>msg. Sparkline 80 [1, 2, 3] 3 1 5 False True [] T_max T_min = Inl (RuntimeError msg))
   \<and> effective_width 20 True 0 3 = 0 \<and> (1::nat) < 2 ^ 31
   \<and> Sparkline 20 [1, 2, 3] 3 1 0 True True [] T_max T_min = Inr
       [Str BOX_NW_CORNER, Str BOX_NE_CORNER, Str newline,
        Str BOX_V_BORDER, Str BOX_V_BORDER_TICK, Str '' min: '', Num 12 (Finite 1),
        Str '', max: '', Num 12 (Finite 3),
        Str newline, Str BOX_SW_CORNER, Str BOX_SE_CORNER,
        Str (newline @ '' ''), Idx 3, Str '' '', Idx 3, Str newline]"
  using Sparkline_throws_iff [of 3 "[1, 2, 3]" 80 1 5 False True "[]" T_max T_min]
    Sparkline_throws_iff [of 3 "[1, 2, 3]" 20 1 0 True True "[]" T_max T_min]
  by (simp add: machine_defs block_defs cong: eval_congs)

text \<open>C3 as stated fails without data: nothing is thrown, and the empty plot is
  returned.\<close>

theorem no_data_counterexample:
  "Sparkline 80 [] 0 1 0 False True [] T_max T_min = Inr []"
  by (simp add: machine_defs block_defs cong: eval_congs)

text \<open>
  C4, as amended. Let the bounds of the range be two \<^verbatim>\<open>float\<close>s, the minimum below the
  maximum, with a difference that does not overflow, and let the number of levels
  \<open>rows * TICKS\<close> be at most \<open>2 ^ 24\<close>, so that the top level is a \<^verbatim>\<open>float\<close>. Then a value
  below the range is at level 0, a value above it at the top level \<open>rows * TICKS - 1\<close>,
  and every value, an infinity or NaN too, is at a level between the two.
\<close>

theorem cell_index_clamped:
  assumes "is_float lo" and "is_float hi" and "lo < hi" and "hi - lo \<le> T_max"
    and "1 \<le> rows" and "rows * TICKS \<le> 2 ^ 24"
  shows "(fless b (Finite lo) \<longrightarrow> cell_index lo hi (levels rows) b = Some 0)
       \<and> (fless (Finite hi) b \<longrightarrow>
            cell_index lo hi (levels rows) b = Some (int (rows * TICKS) - 1))
       \<and> (\<exists>k. cell_index lo hi (levels rows) b = Some k
              \<and> 0 \<le> k \<and> k \<le> int (rows * TICKS) - 1)"
proof -
  define L where "L = rows * TICKS - 1"
  have lv: "levels rows = L"
    using assms(5,6) by (simp add: L_def levels_small)
  have L: "int L = int (rows * TICKS) - 1" "L < 2 ^ 24"
    using assms(5,6) by (simp_all add: L_def TICKS_def)
  obtain k where "cell_index lo hi L b = Some k" "0 \<le> k" "k \<le> int L"
    "fless b (Finite lo) \<longrightarrow> k = 0" "fless (Finite hi) b \<longrightarrow> k = int L"
    using cell_index_range [OF assms(1,2,3,4) L(2), of b] by blast
  then show ?thesis
    by (auto simp: lv L(1))
qed

theorem cell_index_clamped_witness:
  "is_float 0 \<and> is_float 1 \<and> (0::rat) < 1 \<and> (1 :: rat) - 0 \<le> T_max
   \<and> (1::nat) \<le> 3 \<and> 3 * TICKS \<le> 2 ^ 24
   \<and> fless (Finite (- 1)) (Finite 0) \<and> cell_index 0 1 (levels 3) (Finite (- 1)) = Some 0
   \<and> fless (Finite 1) (Finite 2) \<and> cell_index 0 1 (levels 3) (Finite 2) = Some 23
   \<and> fless (Finite 1) PInf \<and> cell_index 0 1 (levels 3) PInf = Some 23"
  using cell_index_clamped [of 0 1 3 "Finite (- 1)"] cell_index_clamped [of 0 1 3 "Finite 2"]
    cell_index_clamped [of 0 1 3 PInf]
  by (simp add: machine_defs Let_def floor_rat_numeral)

text \<open>C4 as stated fails where single precision ends. With \<open>2 ^ 21 + 1\<close> lines the top
  level \<open>2 ^ 24 + 7\<close> is not a \<^verbatim>\<open>float\<close>, and a value above the range is put at level
  \<open>2 ^ 24 + 8\<close>, one above the top. For the range from \<open>- 2 ^ 127\<close> to \<open>2 ^ 127\<close> the
  difference of the bounds is infinite, the fraction of a value above the range is not a
  number, and its level is undefined.\<close>

theorem top_level_counterexample:
  "fless (Finite 1) (Finite 2)
   \<and> cell_index 0 1 (levels 2097153) (Finite 2) = Some 16777224
   \<and> int (2097153 * TICKS) - 1 = 16777223
   \<and> fless (Finite (2 ^ 127)) (Finite (3 * 2 ^ 126))
   \<and> cell_index (- (2 ^ 127)) (2 ^ 127) (levels 1) (Finite (3 * 2 ^ 126)) = None"
  by (simp add: machine_defs block_defs cong: eval_congs)

text \<open>
  C5 at four samples in four columns. The separation of the ticks is 5, so there is a
  single tick, \<^verbatim>\<open>x_ticks_values[0]\<close> is overwritten with the number of samples, and the
  line of labels shows 4 twice and no 0; the only tick mark is in the last column.
  \<open>single_tick\<close> above shows the same for every width below the separation, and
  \<open>several_ticks\<close> that the first label is 0 from the separation on.
\<close>

theorem single_tick_labels:
  "Sparkline 80 [1, 2, 3, 4] 4 1 0 True True [] T_max T_min = Inr
     [Str BOX_NW_CORNER, Str BOX_H_BORDER, Str BOX_H_BORDER, Str BOX_H_BORDER,
      Str BOX_H_BORDER, Str BOX_NE_CORNER, Str newline,
      Str BOX_V_BORDER, Str (ticks ! 0), Str (ticks ! 2), Str (ticks ! 4), Str (ticks ! 7),
      Str BOX_V_BORDER_TICK, Str '' min: '', Num 12 (Finite 1), Str '', max: '',
      Num 12 (Finite 4),
      Str newline, Str BOX_SW_CORNER, Str BOX_H_BORDER, Str BOX_H_BORDER, Str BOX_H_BORDER,
      Str BOX_H_BORDER_TICK, Str BOX_SE_CORNER,
      Str (newline @ '' ''), Idx 4, Str ''   '', Idx 4, Str newline]"
  by (simp add: machine_defs block_defs cong: eval_congs)










text \<open>
  C9 at a terminal of 10 columns. The box needs 20, the subtraction on \<^verbatim>\<open>size_t\<close> wraps
  around, and the width of 15 asked for by 15 samples is not limited at all.
  \<open>effective_width_clamped\<close> above shows the limit for every terminal of 20 columns or
  more, and \<open>effective_width_zero\<close> that a width of 0 stands for the number of samples.
\<close>

theorem narrow_terminal_width:
  "effective_width 10 True 0 15 = 15"
  by (simp add: machine_defs block_defs cong: eval_congs)

text \<open>
  C10. The overload taking a \<^verbatim>\<open>Configuration\<close> is the flat function applied to the
  fields of the configuration in the order height, width, box, color, title, minv,
  maxv; the overloads taking a vector are the ones taking a pointer, applied to the
  elements of the vector and their number.
\<close>

theorem overloads_agree:
  "Sparkline_config tw data n
     \<lparr>this_many_lines_high = h, this_many_characters_wide = w, enclose_in_box = b,
      print_colored = c, title = t, minv = lo, maxv = hi\<rparr>
   = Sparkline tw data n h w b c t lo hi
   \<and> Sparkline_vector tw data h w b c t lo hi = Sparkline tw data (length data) h w b c t lo hi
   \<and> Sparkline_vector_config tw data
     \<lparr>this_many_lines_high = h, this_many_characters_wide = w, enclose_in_box = b,
      print_colored = c, title = t, minv = lo, maxv = hi\<rparr>
   = Sparkline tw data (length data) h w b c t lo hi"
  by (simp add: Sparkline_config_def Sparkline_vector_def Sparkline_vector_config_def)

end
